theory Spec2Isabelle
  imports Main
begin

section \<open>Python strings\<close>

text \<open>
  A string is a sequence of code points below 256, one \<open>char\<close> each. On these
  \<open>str.isspace\<close> holds for the code points 9 to 13, 28 to 31, 32, 0x85 and 0xA0;
  \<open>str.strip()\<close> removes such characters from both ends; \<open>str.lower()\<close> maps \<open>A\<close>..\<open>Z\<close>
  to \<open>a\<close>..\<open>z\<close> and the capital letters 0xC0 to 0xDE (but the sign 0xD7) to the letters
  0xE0 to 0xFE, and leaves every other code point alone.
\<close>

definition isspace :: "char \<Rightarrow> bool" where
  "isspace c = (c \<in> set [CHR 0x09, CHR 0x0A, CHR 0x0B, CHR 0x0C, CHR 0x0D,
                          CHR 0x1C, CHR 0x1D, CHR 0x1E, CHR 0x1F, CHR 0x20,
                          CHR 0x85, CHR 0xA0])"

definition str_strip :: "string \<Rightarrow> string" where
  "str_strip s = rev (dropWhile isspace (rev (dropWhile isspace s)))"

definition char_lower :: "char \<Rightarrow> char" where
  "char_lower c =
     (case map_of
        (zip (''ABCDEFGHIJKLMNOPQRSTUVWXYZ'' @
              [CHR 0xC0, CHR 0xC1, CHR 0xC2, CHR 0xC3, CHR 0xC4, CHR 0xC5, CHR 0xC6, CHR 0xC7,
               CHR 0xC8, CHR 0xC9, CHR 0xCA, CHR 0xCB, CHR 0xCC, CHR 0xCD, CHR 0xCE, CHR 0xCF,
               CHR 0xD0, CHR 0xD1, CHR 0xD2, CHR 0xD3, CHR 0xD4, CHR 0xD5, CHR 0xD6,
               CHR 0xD8, CHR 0xD9, CHR 0xDA, CHR 0xDB, CHR 0xDC, CHR 0xDD, CHR 0xDE])
             (''abcdefghijklmnopqrstuvwxyz'' @
              [CHR 0xE0, CHR 0xE1, CHR 0xE2, CHR 0xE3, CHR 0xE4, CHR 0xE5, CHR 0xE6, CHR 0xE7,
               CHR 0xE8, CHR 0xE9, CHR 0xEA, CHR 0xEB, CHR 0xEC, CHR 0xED, CHR 0xEE, CHR 0xEF,
               CHR 0xF0, CHR 0xF1, CHR 0xF2, CHR 0xF3, CHR 0xF4, CHR 0xF5, CHR 0xF6,
               CHR 0xF8, CHR 0xF9, CHR 0xFA, CHR 0xFB, CHR 0xFC, CHR 0xFD, CHR 0xFE])) c of
        None \<Rightarrow> c
      | Some l \<Rightarrow> l)"

definition str_lower :: "string \<Rightarrow> string" where
  "str_lower s = map char_lower s"

definition isdigit :: "char \<Rightarrow> bool" where
  "isdigit c = (c \<in> set ''0123456789'')"

definition digit_val :: "char \<Rightarrow> int" where
  "digit_val c = int (of_char c) - 48"

datatype py_error = EOFError | ValueError | AttributeError

text \<open>
  \<open>int(s)\<close> for a string, base 10. The whitespace that \<open>int\<close> skips at both ends is not
  that of \<open>str.strip\<close>: of the code points below 127 only 9 to 13 and 32 are skipped (28
  to 31 are not), and the two spaces above, 0x85 and 0xA0, are first turned into blanks.
  Then one sign is allowed, then decimal digits, where a single underscore may stand
  between two digits. \<open>int_digits\<close> reads the rest of the digits after the first one, with
  the value read so far. Anything else raises \<open>ValueError\<close> (here \<open>None\<close>), and so does a
  literal of more than 640 digits that is longer than the limit \<open>max_str_digits\<close> of the
  interpreter (4300 unless set otherwise; 0, or an interpreter without the limit, puts
  no bound).
\<close>

definition int_isspace :: "char \<Rightarrow> bool" where
  "int_isspace c = (c \<in> set [CHR 0x09, CHR 0x0A, CHR 0x0B, CHR 0x0C, CHR 0x0D, CHR 0x20,
                              CHR 0x85, CHR 0xA0])"

definition int_strip :: "string \<Rightarrow> string" where
  "int_strip s = rev (dropWhile int_isspace (rev (dropWhile int_isspace s)))"

fun int_digits :: "int \<Rightarrow> string \<Rightarrow> int option" where
  "int_digits acc [] = Some acc"
| "int_digits acc [c] = (if isdigit c then Some (10 * acc + digit_val c) else None)"
| "int_digits acc (c # d # ds) =
     (if isdigit c then int_digits (10 * acc + digit_val c) (d # ds)
      else if c = CHR ''_'' \<and> isdigit d then int_digits (10 * acc + digit_val d) ds
      else None)"

definition py_int :: "nat \<Rightarrow> string \<Rightarrow> int option" where
  "py_int max_str_digits s =
     (let t = int_strip s;
          neg = (t \<noteq> [] \<and> hd t = CHR ''-'');
          body = (if t \<noteq> [] \<and> (hd t = CHR ''-'' \<or> hd t = CHR ''+'') then tl t else t);
          digits = length (filter isdigit body)
      in case body of
           [] \<Rightarrow> None
         | c # cs \<Rightarrow>
             if isdigit c \<and> \<not> (640 < digits \<and> 0 < max_str_digits \<and> max_str_digits < digits)
             then map_option (\<lambda>n. if neg then - n else n) (int_digits (digit_val c) cs)
             else None)"

section \<open>The key-value files\<close>

text \<open>
  Modelled from the spec: the key-value store layer (\<open>dotenv_values\<close>, \<open>load_dotenv\<close>,
  \<open>set_key\<close>, \<open>unset_key\<close>) is the python-dotenv library, which is not part of the
  repository. A file is the list of the bindings its reader finds, in file order, each
  a key with a value; keys are written as they are read.
  \<^item> \<open>dotenv_values\<close> builds the ordered dictionary of a file: a key keeps the position
    of its first binding and the value of its last one.
  \<^item> \<open>set_key\<close> with \<open>quote_mode="never"\<close> rewrites the file at once, with the line
    \<open>KEY=value\<close> in the place of every binding of the key, or at the end when the key
    has none. What a reader then finds on that line is not the value written: the library
    trims, unquotes and may refuse the line. It is a parameter here, \<open>reader\<close>: the
    value found for a written value, or \<open>None\<close> when the line gives no binding.
  \<^item> \<open>unset_key\<close> rewrites the file at once without the bindings of the key.
  \<^item> \<open>load_dotenv\<close> puts the bindings of a file into the process environment, for the
    variables the environment does not have yet.
\<close>

type_synonym dotenv = "(string \<times> string) list"
type_synonym str_dict = "(string \<times> string) list"

definition dict_setitem :: "str_dict \<Rightarrow> string \<Rightarrow> string \<Rightarrow> str_dict" where
  "dict_setitem d k v =
     (if k \<in> fst ` set d
      then map (\<lambda>(k', v'). if k' = k then (k', v) else (k', v')) d
      else d @ [(k, v)])"

definition dict_get :: "str_dict \<Rightarrow> string \<Rightarrow> string \<Rightarrow> string" where
  "dict_get d k dflt = (case map_of d k of None \<Rightarrow> dflt | Some v \<Rightarrow> v)"

definition dotenv_values :: "dotenv \<Rightarrow> str_dict" where
  "dotenv_values f = foldl (\<lambda>d (k, v). dict_setitem d k v) [] f"

definition rewrite_unset :: "dotenv \<Rightarrow> string \<Rightarrow> dotenv" where
  "rewrite_unset f k = filter (\<lambda>(k', v'). k' \<noteq> k) f"

definition rewrite_set ::
  "(string \<Rightarrow> string option) \<Rightarrow> dotenv \<Rightarrow> string \<Rightarrow> string \<Rightarrow> dotenv" where
  "rewrite_set reader f k v =
     (case reader v of
        None \<Rightarrow> rewrite_unset f k
      | Some found \<Rightarrow>
          if k \<in> fst ` set f
          then map (\<lambda>(k', v'). if k' = k then (k, found) else (k', v')) f
          else f @ [(k, found)])"

text \<open>What a reader of the file finds under a key.\<close>

definition stored :: "dotenv \<Rightarrow> string \<rightharpoonup> string" where
  "stored f = map_of (dotenv_values f)"

section \<open>The world around the program\<close>

text \<open>
  The two files (\<open>None\<close>: the file does not exist), the process environment, the lines
  the operator will type, and the trace of what the program did: the prompts it issued and
  the writes it made to the live file, each \<open>SetKey\<close> with the value as written.
  \<open>print\<close> calls are left out: nothing reads them.
  The environment is the one \<open>Config()\<close> finds, after the import of the module has run
  \<open>load_dotenv()\<close> (line 7). The \<open>openai\<close> module holds the four settings that
  \<open>__init__\<close> assigns. \<open>reads_as\<close> is the reader of written values of the store
  layer, and \<open>int_max_str_digits\<close> the limit of the interpreter on the digits of an
  integer literal; the program changes neither.
\<close>

datatype prompt = CreatePrompt | ApplyPrompt | ValuePrompt string string

datatype event = Input prompt | Touch | SetKey string string | UnsetKey string

record openai_module =
  api_type :: "string option"
  api_base :: "string option"
  api_version :: "string option"
  api_key :: "string option"

record world =
  template_file :: "dotenv option"
  env_file :: "dotenv option"
  environ :: "string \<rightharpoonup> string"
  stdin :: "string list"
  trace :: "event list"
  openai :: openai_module
  reads_as :: "string \<Rightarrow> string option"
  int_max_str_digits :: nat

text \<open>
  \<open>input(prompt)\<close> shows the prompt and reads a line; at end of input it raises.
  \<open>touch\<close> creates the live file empty. \<open>set_key\<close> and \<open>unset_key\<close> are only reached
  when the live file exists.
\<close>

definition input :: "prompt \<Rightarrow> world \<Rightarrow> (py_error + string) \<times> world" where
  "input p w =
     (case stdin w of
        [] \<Rightarrow> (Inl EOFError, w\<lparr>trace := trace w @ [Input p]\<rparr>)
      | a # rest \<Rightarrow> (Inr a, w\<lparr>stdin := rest, trace := trace w @ [Input p]\<rparr>))"

definition touch :: "world \<Rightarrow> world" where
  "touch w =
     w\<lparr>env_file := Some (case env_file w of None \<Rightarrow> [] | Some f \<Rightarrow> f),
       trace := trace w @ [Touch]\<rparr>"

definition set_key :: "string \<Rightarrow> string \<Rightarrow> world \<Rightarrow> world" where
  "set_key key value w =
     w\<lparr>env_file := map_option (\<lambda>f. rewrite_set (reads_as w) f key value) (env_file w),
       trace := trace w @ [SetKey key value]\<rparr>"

definition unset_key :: "string \<Rightarrow> world \<Rightarrow> world" where
  "unset_key key w =
     w\<lparr>env_file := map_option (\<lambda>f. rewrite_unset f key) (env_file w),
       trace := trace w @ [UnsetKey key]\<rparr>"

definition load_dotenv :: "dotenv \<Rightarrow> world \<Rightarrow> world" where
  "load_dotenv f w =
     w\<lparr>environ := (\<lambda>k. case environ w k of
                           Some v \<Rightarrow> Some v
                         | None \<Rightarrow> map_of (dotenv_values f) k)\<rparr>"

section \<open>Config.update_env_from_template\<close>

text \<open>\<open>answer.lower() == "y"\<close>, the test of both yes/no prompts.\<close>

definition is_yes :: "string \<Rightarrow> bool" where
  "is_yes answer = (str_lower answer = ''y'')"

definition removed_keys :: "str_dict \<Rightarrow> str_dict \<Rightarrow> string list" where
  "removed_keys env_values template_values =
     filter (\<lambda>key. key \<notin> fst ` set template_values) (map fst env_values)"

definition changes :: "str_dict \<Rightarrow> str_dict \<Rightarrow> str_dict" where
  "changes env_values template_values =
     filter (\<lambda>(key, value). dict_get env_values key '''' = '''' \<and> value \<noteq> '''')
       template_values"

text \<open>
  The loop of lines 76 to 83 (one prompt and one \<open>set_key\<close> per addition) and the loop of
  lines 84 to 86 (one \<open>unset_key\<close> per removal).
\<close>

fun apply_changes :: "str_dict \<Rightarrow> world \<Rightarrow> (py_error + unit) \<times> world" where
  "apply_changes [] w = (Inr (), w)"
| "apply_changes ((key, value) # rest) w =
     (case input (ValuePrompt key value) w of
        (Inl e, w') \<Rightarrow> (Inl e, w')
      | (Inr new_value, w') \<Rightarrow>
          if str_strip new_value \<noteq> []
          then apply_changes rest (set_key key new_value w')
          else apply_changes rest (set_key key value w'))"

fun apply_removals :: "string list \<Rightarrow> world \<Rightarrow> world" where
  "apply_removals [] w = w"
| "apply_removals (key # rest) w = apply_removals rest (unset_key key w)"

text \<open>
  Lines 53 to 88: both files exist; \<open>env\<close> is the content of the live file. Lines 41 to
  51 come before, in \<open>update_env_from_template\<close>: a missing template, or a missing live
  file that the operator does not want created, prints a message and returns.
\<close>

definition merge_env :: "dotenv \<Rightarrow> dotenv \<Rightarrow> world \<Rightarrow> (py_error + unit) \<times> world" where
  "merge_env template env w0 =
     (let w = load_dotenv template w0;
          env_values = dotenv_values env;
          template_values = dotenv_values template;
          removed = removed_keys env_values template_values;
          chg = changes env_values template_values
      in if chg \<noteq> [] \<or> removed \<noteq> []
         then (case input ApplyPrompt w of
                 (Inl e, w1) \<Rightarrow> (Inl e, w1)
               | (Inr answer, w1) \<Rightarrow>
                   if is_yes answer
                   then (case apply_changes chg w1 of
                           (Inl e, w2) \<Rightarrow> (Inl e, w2)
                         | (Inr u, w2) \<Rightarrow> (Inr (), apply_removals removed w2))
                   else (Inr (), w1))
         else (Inr (), w))"

definition update_env_from_template :: "world \<Rightarrow> (py_error + unit) \<times> world" where
  "update_env_from_template w =
     (case template_file w of
        None \<Rightarrow> (Inr (), w)
      | Some template \<Rightarrow>
          (case env_file w of
             Some env \<Rightarrow> merge_env template env w
           | None \<Rightarrow>
               (case input CreatePrompt w of
                  (Inl e, w1) \<Rightarrow> (Inl e, w1)
                | (Inr answer, w1) \<Rightarrow>
                    if is_yes answer then merge_env template [] (touch w1)
                    else (Inr (), w1))))"

section \<open>Config.__init__\<close>

text \<open>
  A field of type \<open>string option\<close> holds a Python \<open>str\<close> or \<open>None\<close>. The three Azure
  attributes are assigned only under \<open>if self.use_azure\<close>: their outer \<open>None\<close> says that
  the instance has no such attribute, and reading it raises \<open>AttributeError\<close>.
  \<open>use_mac_os_tts\<close> ends up holding whatever \<open>os.getenv\<close> returned.
\<close>

record config =
  debug_mode :: bool
  continuous_mode :: bool
  speak_mode :: bool
  fast_llm_model :: string
  smart_llm_model :: string
  fast_token_limit :: int
  smart_token_limit :: int
  openai_api_key :: "string option"
  use_azure :: bool
  openai_api_base :: "string option option"
  openai_api_version :: "string option option"
  openai_deployment_id :: "string option option"
  elevenlabs_api_key :: "string option"
  use_mac_os_tts :: "string option"
  google_api_key :: "string option"
  custom_search_engine_id :: "string option"
  pinecone_api_key :: "string option"
  pinecone_region :: "string option"
  image_provider :: "string option"
  huggingface_api_token :: "string option"
  user_agent_header :: str_dict
  redis_host :: string
  redis_port :: string
  redis_password :: string
  wipe_redis_on_start :: bool
  memory_index :: string
  memory_backend :: string

definition getenv :: "world \<Rightarrow> string \<Rightarrow> string option" where
  "getenv w k = environ w k"

definition getenv_default :: "world \<Rightarrow> string \<Rightarrow> string \<Rightarrow> string" where
  "getenv_default w k dflt = (case environ w k of None \<Rightarrow> dflt | Some v \<Rightarrow> v)"

text \<open>\<open>int(os.getenv(k, dflt))\<close> with an integer default: \<open>int\<close> of an integer is itself.\<close>

definition getenv_int :: "world \<Rightarrow> string \<Rightarrow> int \<Rightarrow> py_error + int" where
  "getenv_int w k dflt =
     (case environ w k of
        None \<Rightarrow> Inr dflt
      | Some s \<Rightarrow>
          (case py_int (int_max_str_digits w) s of
             None \<Rightarrow> Inl ValueError
           | Some n \<Rightarrow> Inr n))"

definition getattr :: "'a option \<Rightarrow> py_error + 'a" where
  "getattr a = (case a of None \<Rightarrow> Inl AttributeError | Some v \<Rightarrow> Inr v)"

text \<open>Lines 99 to 141: the fields are read from the process environment.\<close>

definition init_fields :: "world \<Rightarrow> (py_error + config) \<times> world" where
  "init_fields w =
     (case getenv_int w ''FAST_TOKEN_LIMIT'' 4000 of
        Inl e \<Rightarrow> (Inl e, w)
      | Inr fast \<Rightarrow>
     (case getenv_int w ''SMART_TOKEN_LIMIT'' 8000 of
        Inl e \<Rightarrow> (Inl e, w)
      | Inr smart \<Rightarrow>
          let key = getenv w ''OPENAI_API_KEY'';
              azure = (getenv w ''USE_AZURE'' = Some ''True'');
              base = getenv w ''OPENAI_AZURE_API_BASE'';
              version = getenv w ''OPENAI_AZURE_API_VERSION'';
              deployment = getenv w ''OPENAI_AZURE_DEPLOYMENT_ID'';
              oa = (if azure
                    then (openai w)\<lparr>api_type := Some ''azure'', api_base := base,
                                    api_version := version\<rparr>
                    else openai w)
          in (Inr \<lparr>debug_mode = False,
                   continuous_mode = False,
                   speak_mode = False,
                   fast_llm_model = getenv_default w ''FAST_LLM_MODEL'' ''gpt-3.5-turbo'',
                   smart_llm_model = getenv_default w ''SMART_LLM_MODEL'' ''gpt-4'',
                   fast_token_limit = fast,
                   smart_token_limit = smart,
                   openai_api_key = key,
                   use_azure = azure,
                   openai_api_base = (if azure then Some base else None),
                   openai_api_version = (if azure then Some version else None),
                   openai_deployment_id = (if azure then Some deployment else None),
                   elevenlabs_api_key = getenv w ''ELEVENLABS_API_KEY'',
                   use_mac_os_tts = getenv w ''USE_MAC_OS_TTS'',
                   google_api_key = getenv w ''GOOGLE_API_KEY'',
                   custom_search_engine_id = getenv w ''CUSTOM_SEARCH_ENGINE_ID'',
                   pinecone_api_key = getenv w ''PINECONE_API_KEY'',
                   pinecone_region = getenv w ''PINECONE_ENV'',
                   image_provider = getenv w ''IMAGE_PROVIDER'',
                   huggingface_api_token = getenv w ''HUGGINGFACE_API_TOKEN'',
                   user_agent_header =
                     [(''User-Agent'',
                       ''Mozilla/5.0 (Macintosh; Intel Mac OS X 10_15_4) AppleWebKit/537.36 (KHTML, like Gecko) Chrome/83.0.4103.97 Safari/537.36'')],
                   redis_host = getenv_default w ''REDIS_HOST'' ''localhost'',
                   redis_port = getenv_default w ''REDIS_PORT'' ''6379'',
                   redis_password = getenv_default w ''REDIS_PASSWORD'' '''',
                   wipe_redis_on_start =
                     (getenv_default w ''WIPE_REDIS_ON_START'' ''True'' = ''True''),
                   memory_index = getenv_default w ''MEMORY_INDEX'' ''auto-gpt'',
                   memory_backend = getenv_default w ''MEMORY_BACKEND'' ''local''\<rparr>,
              w\<lparr>openai := oa\<lparr>api_key := key\<rparr>\<rparr>)))"

definition Config_init :: "world \<Rightarrow> (py_error + config) \<times> world" where
  "Config_init w =
     (case update_env_from_template w of
        (Inl e, w') \<Rightarrow> (Inl e, w')
      | (Inr u, w') \<Rightarrow> init_fields w')"

text \<open>A caller reading one of the three Azure attributes of a constructed instance.\<close>

definition read_openai_api_base :: "config \<Rightarrow> py_error + string option" where
  "read_openai_api_base c = getattr (openai_api_base c)"

definition read_openai_api_version :: "config \<Rightarrow> py_error + string option" where
  "read_openai_api_version c = getattr (openai_api_version c)"

definition read_openai_deployment_id :: "config \<Rightarrow> py_error + string option" where
  "read_openai_deployment_id c = getattr (openai_deployment_id c)"

section \<open>Describing a completed merge\<close>

text \<open>
  The value that lines 78 to 83 pass to \<open>set_key\<close> for a default and a typed line,
  the bindings an approved merge writes for a list of typed lines, the file after a list
  of writes or removals, and the events of the per-key loop.
\<close>

definition accepted :: "string \<Rightarrow> string \<Rightarrow> string" where
  "accepted value new_value = (if str_strip new_value \<noteq> [] then new_value else value)"

fun written_values :: "str_dict \<Rightarrow> string list \<Rightarrow> str_dict" where
  "written_values ((key, value) # rest) (a # answers) =
     (key, accepted value a) # written_values rest answers"
| "written_values chg answers = []"

fun write_all :: "(string \<Rightarrow> string option) \<Rightarrow> dotenv \<Rightarrow> str_dict \<Rightarrow> dotenv" where
  "write_all reader f [] = f"
| "write_all reader f ((key, value) # rest) =
     write_all reader (rewrite_set reader f key value) rest"

fun unset_all :: "dotenv \<Rightarrow> string list \<Rightarrow> dotenv" where
  "unset_all f [] = f"
| "unset_all f (key # rest) = unset_all (rewrite_unset f key) rest"

fun change_events :: "str_dict \<Rightarrow> string list \<Rightarrow> event list" where
  "change_events ((key, value) # rest) (a # answers) =
     Input (ValuePrompt key value) # SetKey key (accepted value a) # change_events rest answers"
| "change_events chg answers = []"

text \<open>The events that rewrite the live file.\<close>

fun is_write :: "event \<Rightarrow> bool" where
  "is_write (Input p) = False"
| "is_write Touch = True"
| "is_write (SetKey key value) = True"
| "is_write (UnsetKey key) = True"

section \<open>A process at start\<close>

text \<open>
  The world of a process that has printed and written nothing yet, for given files,
  environment and typed lines; the \<open>openai\<close> module is as imported and the interpreter
  has its default limit of 4300 digits. Its store reads a written value back as it was
  written, as python-dotenv does for the values that the examples on this world write
  (unquoted, of ASCII letters and digits); an example whose written values are read
  otherwise sets \<open>reads_as\<close>.
\<close>

definition start_world ::
  "dotenv option \<Rightarrow> dotenv option \<Rightarrow> (string \<rightharpoonup> string) \<Rightarrow> string list \<Rightarrow> world" where
  "start_world template env vars typed =
     \<lparr>template_file = template, env_file = env, environ = vars, stdin = typed, trace = [],
      openai = \<lparr>api_type = None, api_base = None, api_version = None, api_key = None\<rparr>,
      reads_as = Some, int_max_str_digits = 4300\<rparr>"

section \<open>Facts about strings and files\<close>

lemma map_fst_replace:
  "map fst (map (\<lambda>(k', v'). if k' = k then (k', v) else (k', v')) d) = map fst d"
  by (induction d) auto

lemma map_of_replace:
  "map_of (map (\<lambda>(k', v'). if k' = k then (k', v) else (k', v')) d) x =
     (if x = k then map_option (\<lambda>u. v) (map_of d k) else map_of d x)"
  by (induction d) auto

lemma map_of_dict_setitem: "map_of (dict_setitem d k v) = (map_of d)(k \<mapsto> v)"
proof (cases "k \<in> fst ` set d")
  case True
  then obtain y where "map_of d k = Some y"
    by (metis map_of_eq_None_iff not_Some_eq)
  with True show ?thesis
    by (auto simp: dict_setitem_def map_of_replace fun_eq_iff)
next
  case False
  then have "map_of d k = None"
    by (simp add: map_of_eq_None_iff)
  with False show ?thesis
    by (auto simp: dict_setitem_def map_add_def fun_eq_iff split: option.splits)
qed

lemma keys_dict_setitem: "fst ` set (dict_setitem d k v) = insert k (fst ` set d)"
proof -
  have "fst ` set (map (\<lambda>(k', v'). if k' = k then (k', v) else (k', v')) d) = fst ` set d"
    using map_fst_replace [of k v d] by (metis set_map)
  then show ?thesis
    by (auto simp: dict_setitem_def)
qed

lemma distinct_dict_setitem:
  assumes "distinct (map fst d)"
  shows "distinct (map fst (dict_setitem d k v))"
proof (cases "k \<in> fst ` set d")
  case True
  then show ?thesis
    unfolding dict_setitem_def using assms by (simp only: if_True map_fst_replace)
next
  case False
  then show ?thesis
    unfolding dict_setitem_def using assms by simp
qed

lemma map_of_foldl_setitem:
  "map_of (foldl (\<lambda>d (k, v). dict_setitem d k v) d f) = map_of d ++ map_of (rev f)"
proof (induction f arbitrary: d)
  case Nil
  show ?case by simp
next
  case (Cons b f)
  obtain k v where b: "b = (k, v)" by (cases b)
  show ?case
    by (rule ext) (simp add: Cons.IH b map_of_dict_setitem map_add_def split: option.splits)
qed

lemma distinct_foldl_setitem:
  "distinct (map fst d) \<Longrightarrow> distinct (map fst (foldl (\<lambda>d (k, v). dict_setitem d k v) d f))"
  by (induction f arbitrary: d) (auto simp: distinct_dict_setitem)

lemma stored_rev: "stored f = map_of (rev f)"
  by (simp add: stored_def dotenv_values_def map_of_foldl_setitem)

lemma distinct_dotenv_values: "distinct (map fst (dotenv_values f))"
  by (simp add: dotenv_values_def distinct_foldl_setitem)

lemma dom_stored: "dom (stored f) = fst ` set f"
  by (simp add: stored_rev dom_map_of_conv_image_fst)

lemma keys_dotenv_values: "fst ` set (dotenv_values f) = fst ` set f"
  using dom_stored [of f] by (simp add: stored_def dom_map_of_conv_image_fst)

lemma stored_rewrite_unset: "stored (rewrite_unset f k) = (stored f)(k := None)"
proof -
  have "map_of (filter (\<lambda>(k', v'). k' \<noteq> k) d) = (map_of d)(k := None)" for d :: dotenv
    by (induction d) (auto simp: fun_eq_iff)
  then show ?thesis
    by (simp add: stored_rev rewrite_unset_def rev_filter)
qed

lemma stored_rewrite_set: "stored (rewrite_set reader f k v) = (stored f)(k := reader v)"
proof (cases "reader v")
  case None
  then show ?thesis
    by (simp add: rewrite_set_def stored_rewrite_unset)
next
  case (Some found)
  have repl: "map_of (map (\<lambda>(k', v'). if k' = k then (k, found) else (k', v')) d) x =
     (if x = k then map_option (\<lambda>u. found) (map_of d k) else map_of d x)" for d x
    by (induction d) auto
  show ?thesis
  proof (cases "k \<in> fst ` set f")
    case True
    then have "k \<in> fst ` set (rev f)" by simp
    then obtain y where "map_of (rev f) k = Some y"
      by (metis map_of_eq_None_iff not_Some_eq)
    with True Some show ?thesis
      by (auto simp: stored_rev rewrite_set_def rev_map repl fun_eq_iff)
  next
    case False
    with Some show ?thesis
      by (auto simp: stored_rev rewrite_set_def fun_eq_iff)
  qed
qed



lemma is_yes_iff: "is_yes a = (a = ''y'' \<or> a = ''Y'')"
  by (cases a) (auto simp add: is_yes_def str_lower_def char_lower_def split: if_splits)

text \<open>
  Three ways in which \<open>int\<close> and \<open>str.strip\<close> differ from a plain reading: a separator
  character (28 to 31) before the digits is not skipped by \<open>int\<close>, a no-break space is,
  a literal beyond the digit limit is refused, and the no-break space and the next-line
  character are whitespace for \<open>str.strip\<close>.
\<close>

lemma py_int_separator_padding: "py_int m [CHR 0x1C, CHR ''7''] = None"
  by (simp add: py_int_def int_strip_def int_isspace_def isdigit_def)

lemma py_int_nbsp_padding: "py_int m [CHR 0xA0, CHR ''7'', CHR 0x85] = Some 7"
  by (simp add: py_int_def int_strip_def int_isspace_def isdigit_def digit_val_def)

lemma py_int_too_long:
  assumes "640 < n" and "0 < m" and "m < n"
  shows "py_int m (replicate n (CHR ''1'')) = None"
proof -
  obtain k where n: "n = Suc k" using assms(1) by (cases n) auto
  have ns: "\<not> int_isspace (CHR ''1'')"
    by (simp add: int_isspace_def)
  have keep: "dropWhile int_isspace (replicate n (CHR ''1'')) = replicate n (CHR ''1'')"
    using ns by (induction n) simp_all
  have strip: "int_strip (replicate n (CHR ''1'')) = replicate n (CHR ''1'')"
    using ns by (simp add: int_strip_def keep)
  have count: "length (filter isdigit (replicate n (CHR ''1''))) = n"
    by (simp add: isdigit_def)
  have "hd (replicate n (CHR ''1'')) = CHR ''1''" "replicate n (CHR ''1'') \<noteq> []"
    by (simp_all add: n)
  then show ?thesis
    using assms count
    unfolding py_int_def strip Let_def
    by (simp add: n)
qed

lemma str_strip_no_break_space: "str_strip [CHR 0xA0, CHR 0x85] = []"
  by (simp add: str_strip_def isspace_def)

section \<open>Facts about the diff\<close>

lemma filter_binding_iff:
  assumes "distinct (map fst xs)"
  shows "(map_of (filter P xs) k = Some v) = (map_of xs k = Some v \<and> P (k, v))"
  using assms
proof (induction xs)
  case Nil
  show ?case by simp
next
  case (Cons x xs)
  obtain a b where x: "x = (a, b)" by (cases x)
  from Cons.prems x have absent: "map_of xs a = None"
    by (simp add: map_of_eq_None_iff)
  from Cons.prems have "distinct (map fst xs)" by simp
  with Cons.IH have IH: "(map_of (filter P xs) k = Some v) = (map_of xs k = Some v \<and> P (k, v))"
    by simp
  show ?case
  proof (cases "k = a")
    case True
    with absent IH have "map_of (filter P xs) a \<noteq> Some v" by simp
    with True x show ?thesis by auto
  next
    case False
    with x IH show ?thesis by simp
  qed
qed

lemma dict_get_stored:
  "dict_get (dotenv_values f) k d = (case stored f k of None \<Rightarrow> d | Some v \<Rightarrow> v)"
  by (simp add: dict_get_def stored_def)

lemma map_of_changes:
  "(map_of (changes (dotenv_values S) (dotenv_values T)) k = Some v) =
     (stored T k = Some v \<and> v \<noteq> '''' \<and> (stored S k = None \<or> stored S k = Some ''''))"
  by (auto simp: changes_def filter_binding_iff distinct_dotenv_values dict_get_stored
      stored_def [symmetric] split: option.splits)

lemma keys_changes:
  "fst ` set (changes (dotenv_values S) (dotenv_values T)) =
     {k. \<exists>v. stored T k = Some v \<and> v \<noteq> '''' \<and>
              (stored S k = None \<or> stored S k = Some '''')}"
proof -
  have "fst ` set (changes (dotenv_values S) (dotenv_values T)) =
        dom (map_of (changes (dotenv_values S) (dotenv_values T)))"
    by (simp add: dom_map_of_conv_image_fst)
  also have "\<dots> = {k. \<exists>v. stored T k = Some v \<and> v \<noteq> '''' \<and>
              (stored S k = None \<or> stored S k = Some '''')}"
    by (auto simp: dom_def map_of_changes)
  finally show ?thesis .
qed

lemma distinct_changes: "distinct (map fst (changes (dotenv_values S) (dotenv_values T)))"
  by (simp add: changes_def distinct_map_filter distinct_dotenv_values)

lemma set_removed_keys:
  "set (removed_keys (dotenv_values S) (dotenv_values T)) = dom (stored S) - dom (stored T)"
  by (auto simp: removed_keys_def dom_stored keys_dotenv_values)

section \<open>Facts about a run\<close>

lemma input_answered:
  "stdin w = a # rest \<Longrightarrow>
   input p w = (Inr a, w\<lparr>stdin := rest, trace := trace w @ [Input p]\<rparr>)"
  by (simp add: input_def)

lemma apply_changes_answered:
  "length answers = length chg \<Longrightarrow> stdin w = answers @ rest \<Longrightarrow>
   apply_changes chg w =
     (Inr (), w\<lparr>stdin := rest,
                env_file := map_option (\<lambda>f. write_all (reads_as w) f (written_values chg answers))
                              (env_file w),
                trace := trace w @ change_events chg answers\<rparr>)"
proof (induction chg arbitrary: answers w)
  case Nil
  then show ?case by (cases "env_file w") simp_all
next
  case (Cons c chg)
  obtain key "value" where c: "c = (key, value)" by (cases c)
  from Cons.prems obtain a as where ans: "answers = a # as" "length as = length chg"
    by (cases answers) auto
  let ?w1 = "w\<lparr>stdin := as @ rest, trace := trace w @ [Input (ValuePrompt key value)]\<rparr>"
  let ?w2 = "set_key key (accepted value a) ?w1"
  have inp: "input (ValuePrompt key value) w = (Inr a, ?w1)"
    using Cons.prems ans by (simp add: input_answered)
  have step: "apply_changes (c # chg) w = apply_changes chg ?w2"
    by (simp add: c inp accepted_def)
  have "stdin ?w2 = as @ rest"
    by (simp add: set_key_def)
  from Cons.IH [OF ans(2) this] have "apply_changes chg ?w2 =
     (Inr (), ?w2\<lparr>stdin := rest,
                env_file := map_option (\<lambda>f. write_all (reads_as w) f (written_values chg as)) (env_file ?w2),
                trace := trace ?w2 @ change_events chg as\<rparr>)"
    by (simp add: set_key_def)
  also have "?w2\<lparr>stdin := rest,
                env_file := map_option (\<lambda>f. write_all (reads_as w) f (written_values chg as)) (env_file ?w2),
                trace := trace ?w2 @ change_events chg as\<rparr> =
     w\<lparr>stdin := rest,
                env_file := map_option (\<lambda>f. write_all (reads_as w) f (written_values (c # chg) answers)) (env_file w),
                trace := trace w @ change_events (c # chg) answers\<rparr>"
    by (cases "env_file w") (simp_all add: set_key_def c ans)
  finally show ?case using step by simp
qed

lemma apply_removals_result:
  "apply_removals keys w =
     w\<lparr>env_file := map_option (\<lambda>f. unset_all f keys) (env_file w),
       trace := trace w @ map UnsetKey keys\<rparr>"
proof (induction keys arbitrary: w)
  case Nil
  show ?case by (cases "env_file w") simp_all
next
  case (Cons key keys)
  show ?case
    by (cases "env_file w") (simp_all add: Cons.IH unset_key_def)
qed

lemma merge_env_no_drift:
  "changes (dotenv_values S) (dotenv_values T) = [] \<Longrightarrow>
   removed_keys (dotenv_values S) (dotenv_values T) = [] \<Longrightarrow>
   merge_env T S w = (Inr (), load_dotenv T w)"
  by (simp add: merge_env_def)

lemma merge_env_declined:
  assumes "changes (dotenv_values S) (dotenv_values T) \<noteq> [] \<or>
           removed_keys (dotenv_values S) (dotenv_values T) \<noteq> []"
    and "stdin w = a # rest" and "\<not> is_yes a"
  shows "merge_env T S w =
     (Inr (), (load_dotenv T w)\<lparr>stdin := rest, trace := trace w @ [Input ApplyPrompt]\<rparr>)"
proof -
  have "stdin (load_dotenv T w) = a # rest" "trace (load_dotenv T w) = trace w"
    using assms(2) by (simp_all add: load_dotenv_def)
  then have "input ApplyPrompt (load_dotenv T w) =
     (Inr a, (load_dotenv T w)\<lparr>stdin := rest, trace := trace w @ [Input ApplyPrompt]\<rparr>)"
    by (simp add: input_def)
  with assms(1,3) show ?thesis
    by (auto simp: merge_env_def Let_def)
qed

lemma merge_env_approved:
  assumes drift: "changes (dotenv_values S) (dotenv_values T) \<noteq> [] \<or>
           removed_keys (dotenv_values S) (dotenv_values T) \<noteq> []"
    and inp: "stdin w = a # answers @ rest" and yes: "is_yes a"
    and len: "length answers = length (changes (dotenv_values S) (dotenv_values T))"
    and present: "env_file w = Some S"
  shows "merge_env T S w =
     (Inr (), (load_dotenv T w)
        \<lparr>stdin := rest,
          env_file := Some (unset_all
             (write_all (reads_as w) S
                (written_values (changes (dotenv_values S) (dotenv_values T)) answers))
             (removed_keys (dotenv_values S) (dotenv_values T))),
          trace := trace w @ [Input ApplyPrompt]
             @ change_events (changes (dotenv_values S) (dotenv_values T)) answers
             @ map UnsetKey (removed_keys (dotenv_values S) (dotenv_values T))\<rparr>)"
proof -
  let ?chg = "changes (dotenv_values S) (dotenv_values T)"
  let ?removed = "removed_keys (dotenv_values S) (dotenv_values T)"
  let ?w0 = "load_dotenv T w"
  let ?w1 = "?w0\<lparr>stdin := answers @ rest, trace := trace w @ [Input ApplyPrompt]\<rparr>"
  have "stdin ?w0 = a # answers @ rest" "trace ?w0 = trace w"
    using inp by (simp_all add: load_dotenv_def)
  then have ask: "input ApplyPrompt ?w0 = (Inr a, ?w1)"
    by (simp add: input_def)
  have "stdin ?w1 = answers @ rest" by simp
  from apply_changes_answered [OF len this]
  have chg: "apply_changes ?chg ?w1 =
     (Inr (), ?w1\<lparr>stdin := rest,
                env_file := map_option (\<lambda>f. write_all (reads_as w) f (written_values ?chg answers)) (env_file ?w1),
                trace := trace ?w1 @ change_events ?chg answers\<rparr>)"
    by (simp add: load_dotenv_def)
  have "env_file ?w1 = Some S"
    using present by (simp add: load_dotenv_def)
  with chg have chg': "apply_changes ?chg ?w1 =
     (Inr (), ?w1\<lparr>stdin := rest,
                env_file := Some (write_all (reads_as w) S (written_values ?chg answers)),
                trace := trace w @ [Input ApplyPrompt] @ change_events ?chg answers\<rparr>)"
    by simp
  have "merge_env T S w = (Inr (), apply_removals ?removed
           (?w1\<lparr>stdin := rest,
                env_file := Some (write_all (reads_as w) S (written_values ?chg answers)),
                trace := trace w @ [Input ApplyPrompt] @ change_events ?chg answers\<rparr>))"
    using drift yes ask chg' by (auto simp: merge_env_def Let_def)
  then show ?thesis
    by (simp add: apply_removals_result)
qed

lemma stored_unset_all:
  "stored (unset_all f keys) k = (if k \<in> set keys then None else stored f k)"
  by (induction keys arbitrary: f) (auto simp: stored_rewrite_unset)

lemma stored_write_all:
  "distinct (map fst vs) \<Longrightarrow>
   stored (write_all reader f vs) k =
     (case map_of vs k of None \<Rightarrow> stored f k | Some v \<Rightarrow> reader v)"
proof (induction vs arbitrary: f)
  case Nil
  show ?case by simp
next
  case (Cons b vs)
  obtain key v where b: "b = (key, v)" by (cases b)
  from Cons.prems b have "map_of vs key = None"
    by (simp add: map_of_eq_None_iff)
  with Cons b show ?case
    by (auto simp: stored_rewrite_set split: option.splits)
qed

lemma keys_written_values:
  "length answers = length chg \<Longrightarrow> map fst (written_values chg answers) = map fst chg"
  by (induction chg answers rule: written_values.induct) auto

lemma accepted_empty_iff:
  "(accepted value a = []) = (str_strip a = [] \<and> value = [])"
  "([] = accepted value a) = (str_strip a = [] \<and> value = [])"
  by (auto simp: accepted_def str_strip_def)

lemma written_values_nonempty:
  "\<forall>(k, v)\<in>set chg. v \<noteq> [] \<Longrightarrow> (k, x) \<in> set (written_values chg answers) \<Longrightarrow> x \<noteq> []"
  by (induction chg answers rule: written_values.induct) (auto simp: accepted_empty_iff)

section \<open>Evaluation and field facts\<close>

lemmas eval_files = stored_def dotenv_values_def dict_setitem_def dict_get_def changes_def
  removed_keys_def rewrite_set_def rewrite_unset_def

lemmas eval_run = update_env_from_template_def merge_env_def input_def touch_def set_key_def
  unset_key_def load_dotenv_def is_yes_def str_lower_def char_lower_def str_strip_def
  isspace_def start_world_def

lemma init_fields_Inr:
  assumes "fst (init_fields w) = Inr c"
  shows "getenv_int w ''FAST_TOKEN_LIMIT'' 4000 = Inr (fast_token_limit c)"
    and "getenv_int w ''SMART_TOKEN_LIMIT'' 8000 = Inr (smart_token_limit c)"
    and "use_azure c = (environ w ''USE_AZURE'' = Some ''True'')"
    and "wipe_redis_on_start c = (getenv_default w ''WIPE_REDIS_ON_START'' ''True'' = ''True'')"
    and "use_mac_os_tts c = environ w ''USE_MAC_OS_TTS''"
    and "openai_api_base c = (if use_azure c then Some (environ w ''OPENAI_AZURE_API_BASE'') else None)"
    and "openai_api_version c = (if use_azure c then Some (environ w ''OPENAI_AZURE_API_VERSION'') else None)"
    and "openai_deployment_id c = (if use_azure c then Some (environ w ''OPENAI_AZURE_DEPLOYMENT_ID'') else None)"
  using assms
  by (auto simp: init_fields_def Let_def getenv_def split: sum.splits)

lemma Config_init_after:
  "update_env_from_template w = (Inr (), w') \<Longrightarrow> Config_init w = init_fields w'"
  by (simp add: Config_init_def)

lemmas eval_init = Config_init_def init_fields_def getenv_int_def getenv_def getenv_default_def
  getattr_def Let_def

section \<open>Keys the merge does not touch\<close>

lemma apply_changes_frame:
  "env_file w = Some f \<Longrightarrow> k \<notin> fst ` set chg \<Longrightarrow>
   \<exists>f'. env_file (snd (apply_changes chg w)) = Some f' \<and> stored f' k = stored f k"
proof (induction chg arbitrary: w f)
  case Nil
  then show ?case by simp
next
  case (Cons c chg)
  obtain key "value" where c: "c = (key, value)" by (cases c)
  from Cons.prems c have other: "k \<noteq> key" "k \<notin> fst ` set chg" by auto
  show ?case
  proof (cases "stdin w")
    case Nil
    with Cons.prems(1) show ?thesis
      by (simp add: c input_def)
  next
    case (Cons a rest)
    let ?w1 = "w\<lparr>stdin := rest, trace := trace w @ [Input (ValuePrompt key value)]\<rparr>"
    let ?w2 = "set_key key (accepted value a) ?w1"
    have step: "apply_changes (c # chg) w = apply_changes chg ?w2"
      using Cons by (simp add: c input_def accepted_def)
    have "env_file ?w2 = Some (rewrite_set (reads_as w) f key (accepted value a))"
      using Cons.prems(1) by (simp add: set_key_def)
    from Cons.IH [OF this other(2)] obtain f' where
      "env_file (snd (apply_changes chg ?w2)) = Some f'"
      "stored f' k = stored (rewrite_set (reads_as w) f key (accepted value a)) k"
      by blast
    with other(1) step show ?thesis
      by (simp add: stored_rewrite_set)
  qed
qed

lemma merge_env_frame:
  assumes "env_file w = Some S"
    and "k \<notin> fst ` set (changes (dotenv_values S) (dotenv_values T))"
    and "k \<notin> set (removed_keys (dotenv_values S) (dotenv_values T))"
  shows "\<exists>S'. env_file (snd (merge_env T S w)) = Some S' \<and> stored S' k = stored S k"
proof -
  let ?chg = "changes (dotenv_values S) (dotenv_values T)"
  let ?removed = "removed_keys (dotenv_values S) (dotenv_values T)"
  let ?w0 = "load_dotenv T w"
  have w0: "env_file ?w0 = Some S"
    using assms(1) by (simp add: load_dotenv_def)
  show ?thesis
  proof (cases "?chg \<noteq> [] \<or> ?removed \<noteq> []")
    case False
    with w0 show ?thesis by (auto simp: merge_env_def Let_def)
  next
    case drift: True
    show ?thesis
    proof (cases "stdin ?w0")
      case Nil
      with drift w0 show ?thesis
        by (simp add: merge_env_def input_def Let_def)
    next
      case (Cons a rest)
      let ?w1 = "?w0\<lparr>stdin := rest, trace := trace ?w0 @ [Input ApplyPrompt]\<rparr>"
      have ask: "input ApplyPrompt ?w0 = (Inr a, ?w1)"
        using Cons by (simp add: input_def)
      have w1: "env_file ?w1 = Some S" using w0 by simp
      show ?thesis
      proof (cases "is_yes a")
        case False
        with drift ask w1 show ?thesis
          by (simp add: merge_env_def Let_def)
      next
        case True
        from apply_changes_frame [OF w1 assms(2)] obtain f' where
          f': "env_file (snd (apply_changes ?chg ?w1)) = Some f'" "stored f' k = stored S k"
          by blast
        obtain r w2 where run: "apply_changes ?chg ?w1 = (r, w2)"
          by (cases "apply_changes ?chg ?w1")
        with f' have w2: "env_file w2 = Some f'" by simp
        show ?thesis
        proof (cases r)
          case (Inl e)
          with drift ask True run w2 f'(2) show ?thesis
            by (simp add: merge_env_def Let_def)
        next
          case (Inr u)
          have "env_file (apply_removals ?removed w2) = Some (unset_all f' ?removed)"
            using w2 by (simp add: apply_removals_result)
          moreover have "stored (unset_all f' ?removed) k = stored S k"
            using assms(3) f'(2) by (simp add: stored_unset_all)
          ultimately show ?thesis
            using drift ask True run Inr by (simp add: merge_env_def Let_def)
        qed
      qed
    qed
  qed
qed

section \<open>The approved merge\<close>



lemma distinct_written_values:
  "length answers = length chg \<Longrightarrow> distinct (map fst chg) \<Longrightarrow>
   distinct (map fst (written_values chg answers))"
  by (simp add: keys_written_values)


lemma update_approved:
  assumes "template_file w = Some T" and "env_file w = Some S"
    and "changes (dotenv_values S) (dotenv_values T) \<noteq> [] \<or>
         removed_keys (dotenv_values S) (dotenv_values T) \<noteq> []"
    and "stdin w = a # answers @ rest" and "is_yes a"
    and "length answers = length (changes (dotenv_values S) (dotenv_values T))"
  shows "update_env_from_template w =
     (Inr (), (load_dotenv T w)
        \<lparr>stdin := rest,
          env_file := Some (unset_all
             (write_all (reads_as w) S
                (written_values (changes (dotenv_values S) (dotenv_values T)) answers))
             (removed_keys (dotenv_values S) (dotenv_values T))),
          trace := trace w @ [Input ApplyPrompt]
             @ change_events (changes (dotenv_values S) (dotenv_values T)) answers
             @ map UnsetKey (removed_keys (dotenv_values S) (dotenv_values T))\<rparr>)"
  using merge_env_approved [OF assms(3) assms(4) assms(5) assms(6) assms(2)] assms(1,2)
  by (simp add: update_env_from_template_def)

lemma stored_merged:
  assumes "length answers = length (changes (dotenv_values S) (dotenv_values T))"
  shows "stored (unset_all
             (write_all reader S
                (written_values (changes (dotenv_values S) (dotenv_values T)) answers))
             (removed_keys (dotenv_values S) (dotenv_values T))) k =
     (if k \<in> set (removed_keys (dotenv_values S) (dotenv_values T)) then None
      else case map_of (written_values (changes (dotenv_values S) (dotenv_values T)) answers) k of
             None \<Rightarrow> stored S k
           | Some v \<Rightarrow> reader v)"
  using assms
  by (simp add: stored_unset_all stored_write_all distinct_written_values distinct_changes)



section \<open>The file after an approved merge\<close>

lemma changes_values_nonempty:
  "\<forall>(k, v)\<in>set (changes E T). v \<noteq> []"
  by (auto simp: changes_def)

lemma stored_written_back:
  assumes "distinct (map fst vals)" and "\<forall>(k, v)\<in>set vals. reader v = Some v"
  shows "stored (write_all reader f vals) k =
     (case map_of vals k of None \<Rightarrow> stored f k | Some v \<Rightarrow> Some v)"
proof (cases "map_of vals k")
  case None
  then show ?thesis by (simp add: stored_write_all [OF assms(1)])
next
  case (Some v)
  then have "(k, v) \<in> set vals" by (rule map_of_SomeD)
  with assms(2) have "reader v = Some v" by auto
  with Some show ?thesis by (simp add: stored_write_all [OF assms(1)])
qed

lemma stored_merged_back:
  assumes "length answers = length (changes (dotenv_values S) (dotenv_values T))"
    and "\<forall>(k, v)\<in>set (written_values (changes (dotenv_values S) (dotenv_values T)) answers).
           reader v = Some v"
  shows "stored (unset_all
             (write_all reader S
                (written_values (changes (dotenv_values S) (dotenv_values T)) answers))
             (removed_keys (dotenv_values S) (dotenv_values T))) k =
     (if k \<in> set (removed_keys (dotenv_values S) (dotenv_values T)) then None
      else case map_of (written_values (changes (dotenv_values S) (dotenv_values T)) answers) k of
             None \<Rightarrow> stored S k
           | Some v \<Rightarrow> Some v)"
proof -
  have "distinct (map fst (written_values (changes (dotenv_values S) (dotenv_values T)) answers))"
    using assms(1) by (simp add: distinct_written_values distinct_changes)
  from stored_written_back [OF this assms(2)] show ?thesis
    by (simp add: stored_unset_all)
qed

lemma merged_no_drift:
  assumes len: "length answers = length (changes (dotenv_values S) (dotenv_values T))"
    and same_read: "\<forall>(k, v)\<in>set (written_values (changes (dotenv_values S) (dotenv_values T)) answers).
                 reader v = Some v"
  defines "M \<equiv> unset_all
             (write_all reader S
                (written_values (changes (dotenv_values S) (dotenv_values T)) answers))
             (removed_keys (dotenv_values S) (dotenv_values T))"
  shows "changes (dotenv_values M) (dotenv_values T) = []"
    and "removed_keys (dotenv_values M) (dotenv_values T) = []"
proof -
  let ?chg = "changes (dotenv_values S) (dotenv_values T)"
  let ?removed = "removed_keys (dotenv_values S) (dotenv_values T)"
  let ?vals = "written_values ?chg answers"
  have M: "stored M k = (if k \<in> set ?removed then None
      else case map_of ?vals k of None \<Rightarrow> stored S k | Some v \<Rightarrow> Some v)" for k
    unfolding M_def by (rule stored_merged_back [OF len same_read])
  have keys: "fst ` set ?vals = fst ` set ?chg"
    using keys_written_values [OF len] by (metis set_map)
  have filled: "stored M k \<noteq> None \<and> stored M k \<noteq> Some ''''"
    if T: "stored T k = Some v" "v \<noteq> ''''" for k v
  proof -
    from T have keep: "k \<notin> set ?removed"
      by (auto simp: set_removed_keys)
    show ?thesis
    proof (cases "map_of ?vals k")
      case None
      then have "k \<notin> fst ` set ?chg"
        using keys by (simp add: map_of_eq_None_iff)
      with T have "stored S k \<noteq> None \<and> stored S k \<noteq> Some ''''"
        by (auto simp: keys_changes)
      with None keep show ?thesis by (simp add: M)
    next
      case (Some x)
      then have "(k, x) \<in> set ?vals" by (rule map_of_SomeD)
      with changes_values_nonempty have "x \<noteq> []"
        by (rule written_values_nonempty)
      with Some keep show ?thesis by (simp add: M)
    qed
  qed
  have "fst ` set (changes (dotenv_values M) (dotenv_values T)) = {}"
    using filled by (auto simp: keys_changes)
  then show "changes (dotenv_values M) (dotenv_values T) = []" by simp
  have "k \<in> dom (stored T)" if "k \<in> dom (stored M)" for k
  proof (rule ccontr)
    assume out: "k \<notin> dom (stored T)"
    from that have keep: "k \<notin> set ?removed"
      by (auto simp: M split: if_splits)
    with out have "stored S k = None"
      by (auto simp: set_removed_keys)
    moreover from out have "k \<notin> fst ` set ?chg"
      by (auto simp: keys_changes)
    then have "map_of ?vals k = None"
      using keys by (simp add: map_of_eq_None_iff)
    ultimately have "stored M k = None"
      using keep by (simp add: M)
    with that show False by auto
  qed
  then have "set (removed_keys (dotenv_values M) (dotenv_values T)) = {}"
    by (auto simp: set_removed_keys)
  then show "removed_keys (dotenv_values M) (dotenv_values T) = []" by simp
qed

lemma load_dotenv_twice: "load_dotenv T (load_dotenv T w) = load_dotenv T w"
proof -
  have "(\<lambda>k. case (case environ w k of None \<Rightarrow> map_of (dotenv_values T) k | Some v \<Rightarrow> Some v) of
               None \<Rightarrow> map_of (dotenv_values T) k | Some v \<Rightarrow> Some v) =
        (\<lambda>k. case environ w k of None \<Rightarrow> map_of (dotenv_values T) k | Some v \<Rightarrow> Some v)"
    by (rule ext) (simp split: option.splits)
  then show ?thesis
    by (simp add: load_dotenv_def)
qed

lemma load_dotenv_fields:
  "load_dotenv T (w\<lparr>stdin := ins\<rparr>) = (load_dotenv T w)\<lparr>stdin := ins\<rparr>"
  "load_dotenv T (w\<lparr>env_file := f\<rparr>) = (load_dotenv T w)\<lparr>env_file := f\<rparr>"
  "load_dotenv T (w\<lparr>trace := tr\<rparr>) = (load_dotenv T w)\<lparr>trace := tr\<rparr>"
  "template_file (load_dotenv T w) = template_file w"
  "env_file (load_dotenv T w) = env_file w"
  "stdin (load_dotenv T w) = stdin w"
  "trace (load_dotenv T w) = trace w"
  by (simp_all add: load_dotenv_def)

lemma update_settled:
  assumes "template_file w = Some T" and "env_file w = Some S"
    and "changes (dotenv_values S) (dotenv_values T) = []"
    and "removed_keys (dotenv_values S) (dotenv_values T) = []"
  shows "update_env_from_template w = (Inr (), load_dotenv T w)"
  using assms by (simp add: update_env_from_template_def merge_env_no_drift)

section \<open>Writes of a merge\<close>

lemma keys_written_values_take:
  "map fst (written_values chg answers) = take (length answers) (map fst chg)"
  by (induction chg answers rule: written_values.induct) auto

lemma writes_of_change_events:
  "filter is_write (change_events chg answers) =
     map (\<lambda>(k, v). SetKey k v) (written_values chg answers)"
  by (induction chg answers rule: change_events.induct) auto

lemma writes_of_removals: "filter is_write (map UnsetKey keys) = map UnsetKey keys"
  by (induction keys) auto

lemma apply_changes_exhausted:
  "length answers < length chg \<Longrightarrow> stdin w = answers \<Longrightarrow>
   \<exists>w'. apply_changes chg w = (Inl EOFError, w') \<and>
        env_file w' = map_option (\<lambda>f. write_all (reads_as w) f (written_values chg answers)) (env_file w) \<and>
        filter is_write (trace w') =
          filter is_write (trace w) @ map (\<lambda>(k, v). SetKey k v) (written_values chg answers)"
proof (induction chg arbitrary: answers w)
  case Nil
  then show ?case by simp
next
  case (Cons c chg)
  obtain key "value" where c: "c = (key, value)" by (cases c)
  show ?case
  proof (cases answers)
    case Nil
    with Cons.prems show ?thesis
      by (cases "env_file w") (simp_all add: c input_def)
  next
    case (Cons a as)
    let ?w1 = "w\<lparr>stdin := as, trace := trace w @ [Input (ValuePrompt key value)]\<rparr>"
    let ?w2 = "set_key key (accepted value a) ?w1"
    have step: "apply_changes (c # chg) w = apply_changes chg ?w2"
      using Cons Cons.prems by (simp add: c input_def accepted_def)
    have "length as < length chg" "stdin ?w2 = as"
      using Cons Cons.prems by (simp_all add: set_key_def)
    from Cons.IH [OF this] obtain w' where w':
      "apply_changes chg ?w2 = (Inl EOFError, w')"
      "env_file w' = map_option (\<lambda>f. write_all (reads_as w) f (written_values chg as)) (env_file ?w2)"
      "filter is_write (trace w') =
          filter is_write (trace ?w2) @ map (\<lambda>(k, v). SetKey k v) (written_values chg as)"
      by (auto simp: set_key_def)
    have "env_file w' = map_option (\<lambda>f. write_all (reads_as w) f (written_values (c # chg) answers)) (env_file w)"
      using w'(2) Cons by (cases "env_file w") (simp_all add: c set_key_def)
    moreover have "filter is_write (trace w') =
          filter is_write (trace w) @ map (\<lambda>(k, v). SetKey k v) (written_values (c # chg) answers)"
      using w'(3) Cons by (simp add: c set_key_def)
    ultimately show ?thesis
      using step w'(1) by simp
  qed
qed

section \<open>The reconciliation diff\<close>

text \<open>
  C1. For every template \<open>T\<close> and live store \<open>S\<close>, the keys of \<open>changes\<close> (the
  additions) are exactly the keys that \<open>T\<close> binds to a non-empty default and that \<open>S\<close>
  does not bind or binds to the empty string; \<open>removed_keys\<close> (the removals) are exactly
  the keys that \<open>S\<close> binds and \<open>T\<close> does not. In particular a key whose template
  default is empty is never an addition, whatever the store holds.
\<close>

theorem diff_exact:
  "set (map fst (changes (dotenv_values S) (dotenv_values T))) =
     {k. \<exists>v. stored T k = Some v \<and> v \<noteq> '''' \<and>
              (stored S k = None \<or> stored S k = Some '''')}
   \<and> set (removed_keys (dotenv_values S) (dotenv_values T)) =
     {k. k \<in> dom (stored S) \<and> k \<notin> dom (stored T)}
   \<and> (stored T k = Some '''' \<longrightarrow>
        k \<notin> set (map fst (changes (dotenv_values S) (dotenv_values T))))"
proof -
  have "set (map fst (changes (dotenv_values S) (dotenv_values T))) =
     {k. \<exists>v. stored T k = Some v \<and> v \<noteq> '''' \<and>
              (stored S k = None \<or> stored S k = Some '''')}"
    using keys_changes [of S T] by simp
  moreover have "set (removed_keys (dotenv_values S) (dotenv_values T)) =
     {k. k \<in> dom (stored S) \<and> k \<notin> dom (stored T)}"
    using set_removed_keys [of S T] by auto
  ultimately show ?thesis by auto
qed

theorem diff_exact_witness:
  "stored [(''A'', '''')] ''A'' = Some '''' \<and>
   ''A'' \<notin> set (map fst (changes (dotenv_values []) (dotenv_values [(''A'', '''')])))"
proof -
  have h: "stored [(''A'', '''')] ''A'' = Some ''''"
    by (simp add: stored_def dotenv_values_def dict_setitem_def)
  from diff_exact [of "[]" "[(''A'', '''')]" "''A''"] h show ?thesis
    by blast
qed

section \<open>Missing files\<close>

text \<open>
  C2, as the claim states it, fails: with the template absent, or with the live file
  absent and the creation prompt answered \<open>n\<close>, \<open>update_env_from_template\<close> returns
  normally and \<open>Config.__init__\<close> goes on and builds the instance (here with the default
  fast token limit).
\<close>

theorem missing_file_not_fatal_counterexample:
  "fst (update_env_from_template (start_world None (Some []) Map.empty [])) = Inr () \<and>
   map_sum id fast_token_limit (fst (Config_init (start_world None (Some []) Map.empty [])))
     = Inr 4000 \<and>
   fst (update_env_from_template (start_world (Some []) None Map.empty [''n''])) = Inr () \<and>
   map_sum id fast_token_limit (fst (Config_init (start_world (Some []) None Map.empty [''n''])))
     = Inr 4000"
  by (simp add: eval_init eval_run)

text \<open>
  C2, amended. If the template file is absent, or the live file is absent and the operator
  answers the creation prompt with anything but \<open>y\<close> or \<open>Y\<close>, reconciliation returns
  normally (the error is only printed), leaves both files and the environment as they
  were, and construction goes on to read the fields from the process environment.
\<close>

theorem missing_file_returns:
  assumes "template_file w = None \<or>
           (env_file w = None \<and> stdin w = a # rest \<and> \<not> is_yes a)"
  shows "fst (update_env_from_template w) = Inr () \<and>
         template_file (snd (update_env_from_template w)) = template_file w \<and>
         env_file (snd (update_env_from_template w)) = env_file w \<and>
         environ (snd (update_env_from_template w)) = environ w \<and>
         Config_init w = init_fields (snd (update_env_from_template w))"
  using assms
  by (auto simp: update_env_from_template_def Config_init_def input_def split: option.splits)

theorem missing_file_returns_witness:
  "template_file (start_world (Some []) None Map.empty [''n'']) = Some [] \<and>
   env_file (start_world (Some []) None Map.empty [''n'']) = None \<and>
   stdin (start_world (Some []) None Map.empty [''n'']) = ''n'' # [] \<and>
   \<not> is_yes ''n'' \<and>
   fst (update_env_from_template (start_world (Some []) None Map.empty [''n''])) = Inr () \<and>
   env_file (snd (update_env_from_template (start_world (Some []) None Map.empty [''n'']))) = None \<and>
   Config_init (start_world (Some []) None Map.empty [''n'']) =
     init_fields (snd (update_env_from_template (start_world (Some []) None Map.empty [''n''])))"
proof -
  let ?w = "start_world (Some []) None Map.empty [''n'']"
  have h: "template_file ?w = Some []" "env_file ?w = None" "stdin ?w = ''n'' # []"
    by (simp_all add: start_world_def)
  have n: "\<not> is_yes ''n''" by (simp add: is_yes_def str_lower_def char_lower_def)
  from h n have "template_file ?w = None \<or>
     (env_file ?w = None \<and> stdin ?w = ''n'' # [] \<and> \<not> is_yes ''n'')"
    by simp
  from missing_file_returns [OF this] h n show ?thesis by simp
qed

section \<open>Idempotence\<close>

text \<open>
  C3, as the claim states it, fails. The template is \<open>A=1\<close>, the live file is empty, and
  the operator approves and types two double quotes for \<open>A\<close>. Line 79 writes them as they
  are, and the store layer reads the line \<open>A=""\<close> as the empty value (the reader of this
  world does so for that value). The run returns, \<open>A\<close> is still empty in the live file,
  the diff against the same template is the same addition, and the second run asks
  again.
\<close>

theorem rerun_after_quotes_counterexample:
  "fst (update_env_from_template
      ((start_world (Some [(''A'', ''1'')]) (Some []) Map.empty [''y'', [CHR 0x22, CHR 0x22]])
         \<lparr>reads_as := Some([CHR 0x22, CHR 0x22] := Some [])\<rparr>)) = Inr () \<and>
   trace (snd (update_env_from_template
      ((start_world (Some [(''A'', ''1'')]) (Some []) Map.empty [''y'', [CHR 0x22, CHR 0x22]])
         \<lparr>reads_as := Some([CHR 0x22, CHR 0x22] := Some [])\<rparr>)))
     = [Input ApplyPrompt, Input (ValuePrompt ''A'' ''1''), SetKey ''A'' [CHR 0x22, CHR 0x22]] \<and>
   env_file (snd (update_env_from_template
      ((start_world (Some [(''A'', ''1'')]) (Some []) Map.empty [''y'', [CHR 0x22, CHR 0x22]])
         \<lparr>reads_as := Some([CHR 0x22, CHR 0x22] := Some [])\<rparr>)))
     = Some [(''A'', [])] \<and>
   changes (dotenv_values [(''A'', [])]) (dotenv_values [(''A'', ''1'')]) = [(''A'', ''1'')] \<and>
   trace (snd (update_env_from_template
      ((snd (update_env_from_template
         ((start_world (Some [(''A'', ''1'')]) (Some []) Map.empty [''y'', [CHR 0x22, CHR 0x22]])
            \<lparr>reads_as := Some([CHR 0x22, CHR 0x22] := Some [])\<rparr>)))
       \<lparr>stdin := [''n'']\<rparr>)))
     = [Input ApplyPrompt, Input (ValuePrompt ''A'' ''1''), SetKey ''A'' [CHR 0x22, CHR 0x22],
        Input ApplyPrompt]"
  by (simp add: eval_run eval_files Let_def)

text \<open>
  C3, amended. Reconciliation is idempotent when the store reads every value that the
  first run writes back as it was written: with both files present, after a run in which
  the operator approves the merge and answers every value prompt (by a value or by an
  empty line for the default), the diff of the resulting file against the same template
  is empty, and a second run, whatever is typed, returns the world as it found it: no
  prompt, no write.
\<close>

theorem reconcile_idempotent:
  assumes "template_file w = Some T" and "env_file w = Some S"
    and "stdin w = a # answers @ rest" and "is_yes a"
    and "length answers = length (changes (dotenv_values S) (dotenv_values T))"
    and "\<forall>(k, v)\<in>set (written_values (changes (dotenv_values S) (dotenv_values T)) answers).
           reads_as w v = Some v"
  shows "\<exists>w1 S1. update_env_from_template w = (Inr (), w1) \<and> env_file w1 = Some S1 \<and>
           changes (dotenv_values S1) (dotenv_values T) = [] \<and>
           removed_keys (dotenv_values S1) (dotenv_values T) = [] \<and>
           (\<forall>typed. update_env_from_template (w1\<lparr>stdin := typed\<rparr>)
                      = (Inr (), w1\<lparr>stdin := typed\<rparr>))"
proof (cases "changes (dotenv_values S) (dotenv_values T) \<noteq> [] \<or>
              removed_keys (dotenv_values S) (dotenv_values T) \<noteq> []")
  case False
  let ?w1 = "load_dotenv T w"
  from False have none: "changes (dotenv_values S) (dotenv_values T) = []"
    "removed_keys (dotenv_values S) (dotenv_values T) = []" by simp_all
  have first: "update_env_from_template w = (Inr (), ?w1)"
    using assms(1,2) none by (rule update_settled)
  have again: "update_env_from_template (?w1\<lparr>stdin := typed\<rparr>) = (Inr (), ?w1\<lparr>stdin := typed\<rparr>)"
    for typed
  proof -
    have "template_file (?w1\<lparr>stdin := typed\<rparr>) = Some T" "env_file (?w1\<lparr>stdin := typed\<rparr>) = Some S"
      using assms(1,2) by (simp_all add: load_dotenv_fields)
    from update_settled [OF this none] show ?thesis
      by (simp add: load_dotenv_fields load_dotenv_twice)
  qed
  have "env_file ?w1 = Some S" using assms(2) by (simp add: load_dotenv_fields)
  with first none again show ?thesis by blast
next
  case True
  let ?chg = "changes (dotenv_values S) (dotenv_values T)"
  let ?removed = "removed_keys (dotenv_values S) (dotenv_values T)"
  let ?M = "unset_all (write_all (reads_as w) S (written_values ?chg answers)) ?removed"
  let ?w1 = "(load_dotenv T w)\<lparr>stdin := rest, env_file := Some ?M,
       trace := trace w @ [Input ApplyPrompt] @ change_events ?chg answers @ map UnsetKey ?removed\<rparr>"
  have first: "update_env_from_template w = (Inr (), ?w1)"
    using update_approved [OF assms(1) assms(2) True assms(3) assms(4) assms(5)] .
  note none = merged_no_drift [OF assms(5) assms(6)]
  have again: "update_env_from_template (?w1\<lparr>stdin := typed\<rparr>) = (Inr (), ?w1\<lparr>stdin := typed\<rparr>)"
    for typed
  proof -
    have "template_file (?w1\<lparr>stdin := typed\<rparr>) = Some T" "env_file (?w1\<lparr>stdin := typed\<rparr>) = Some ?M"
      using assms(1) by (simp_all add: load_dotenv_fields)
    from update_settled [OF this none] show ?thesis
      by (simp add: load_dotenv_fields load_dotenv_twice)
  qed
  have "env_file ?w1 = Some ?M" by simp
  with first none again show ?thesis by blast
qed


theorem reconcile_idempotent_witness:
  "template_file (start_world (Some [(''A'', ''1'')]) (Some [(''A'', ''''), (''B'', ''x'')]) Map.empty [''y'', ''''])
     = Some [(''A'', ''1'')] \<and>
   env_file (start_world (Some [(''A'', ''1'')]) (Some [(''A'', ''''), (''B'', ''x'')]) Map.empty [''y'', ''''])
     = Some [(''A'', ''''), (''B'', ''x'')] \<and>
   stdin (start_world (Some [(''A'', ''1'')]) (Some [(''A'', ''''), (''B'', ''x'')]) Map.empty [''y'', ''''])
     = ''y'' # [''''] @ [] \<and>
   is_yes ''y'' \<and>
   changes (dotenv_values [(''A'', ''''), (''B'', ''x'')]) (dotenv_values [(''A'', ''1'')])
     = [(''A'', ''1'')] \<and>
   written_values [(''A'', ''1'')] [''''] = [(''A'', ''1'')] \<and>
   reads_as (start_world (Some [(''A'', ''1'')]) (Some [(''A'', ''''), (''B'', ''x'')]) Map.empty [''y'', ''''])
     ''1'' = Some ''1'' \<and>
   env_file (snd (update_env_from_template
     (start_world (Some [(''A'', ''1'')]) (Some [(''A'', ''''), (''B'', ''x'')]) Map.empty [''y'', ''''])))
     = Some [(''A'', ''1'')] \<and>
   (\<exists>w1 S1. update_env_from_template
        (start_world (Some [(''A'', ''1'')]) (Some [(''A'', ''''), (''B'', ''x'')]) Map.empty [''y'', ''''])
        = (Inr (), w1) \<and> env_file w1 = Some S1 \<and>
      changes (dotenv_values S1) (dotenv_values [(''A'', ''1'')]) = [] \<and>
      removed_keys (dotenv_values S1) (dotenv_values [(''A'', ''1'')]) = [] \<and>
      (\<forall>typed. update_env_from_template (w1\<lparr>stdin := typed\<rparr>) = (Inr (), w1\<lparr>stdin := typed\<rparr>)))"
proof -
  let ?T = "[(''A'', ''1'')]"
  let ?S = "[(''A'', ''''), (''B'', ''x'')]"
  let ?w = "start_world (Some ?T) (Some ?S) Map.empty [''y'', '''']"
  have h1: "template_file ?w = Some ?T" and h2: "env_file ?w = Some ?S"
    and h3: "stdin ?w = ''y'' # [''''] @ []"
    by (simp_all add: start_world_def)
  have h4: "is_yes ''y''" by (simp add: is_yes_def str_lower_def char_lower_def)
  have chg: "changes (dotenv_values ?S) (dotenv_values ?T) = [(''A'', ''1'')]"
    by (simp add: eval_files)
  have h5: "length [''''] = length (changes (dotenv_values ?S) (dotenv_values ?T))"
    by (simp add: chg)
  have vals: "written_values [(''A'', ''1'')] [''''] = [(''A'', ''1'')]"
    by (simp add: accepted_def str_strip_def)
  have rd: "reads_as ?w ''1'' = Some ''1''"
    by (simp add: start_world_def)
  have h6: "\<forall>(k, v)\<in>set (written_values (changes (dotenv_values ?S) (dotenv_values ?T)) ['''']).
      reads_as ?w v = Some v"
    unfolding chg vals by (simp add: rd)
  have run: "env_file (snd (update_env_from_template ?w)) = Some [(''A'', ''1'')]"
    by (simp add: eval_run eval_files Let_def)
  from reconcile_idempotent [OF h1 h2 h3 h4 h5 h6] h1 h2 h3 h4 chg vals rd run show ?thesis
    by blast
qed

section \<open>Declining the merge\<close>

text \<open>
  C4. Decline is a no-op: when both files exist, the diff is not empty and the operator
  answers the approval prompt with anything but \<open>y\<close> or \<open>Y\<close>, reconciliation returns
  with the live file exactly as it was; the only thing it did was to ask (no \<open>set_key\<close>,
  no \<open>unset_key\<close>).
\<close>

theorem decline_is_noop:
  assumes "template_file w = Some T" and "env_file w = Some S"
    and "changes (dotenv_values S) (dotenv_values T) \<noteq> [] \<or>
         removed_keys (dotenv_values S) (dotenv_values T) \<noteq> []"
    and "stdin w = a # rest" and "\<not> is_yes a"
  shows "\<exists>w'. update_env_from_template w = (Inr (), w') \<and>
              env_file w' = Some S \<and> template_file w' = Some T \<and>
              trace w' = trace w @ [Input ApplyPrompt]"
proof -
  from merge_env_declined [OF assms(3) assms(4) assms(5)]
  have "update_env_from_template w =
     (Inr (), (load_dotenv T w)\<lparr>stdin := rest, trace := trace w @ [Input ApplyPrompt]\<rparr>)"
    using assms(1,2) by (simp add: update_env_from_template_def)
  moreover have "env_file (load_dotenv T w) = Some S" "template_file (load_dotenv T w) = Some T"
    using assms(1,2) by (simp_all add: load_dotenv_def)
  ultimately show ?thesis by simp
qed

theorem decline_is_noop_witness:
  "template_file (start_world (Some [(''A'', ''1'')]) (Some [(''A'', ''''), (''B'', ''x'')]) Map.empty [''n''])
     = Some [(''A'', ''1'')] \<and>
   env_file (start_world (Some [(''A'', ''1'')]) (Some [(''A'', ''''), (''B'', ''x'')]) Map.empty [''n''])
     = Some [(''A'', ''''), (''B'', ''x'')] \<and>
   changes (dotenv_values [(''A'', ''''), (''B'', ''x'')]) (dotenv_values [(''A'', ''1'')])
     = [(''A'', ''1'')] \<and>
   removed_keys (dotenv_values [(''A'', ''''), (''B'', ''x'')]) (dotenv_values [(''A'', ''1'')])
     = [''B''] \<and>
   stdin (start_world (Some [(''A'', ''1'')]) (Some [(''A'', ''''), (''B'', ''x'')]) Map.empty [''n''])
     = ''n'' # [] \<and>
   \<not> is_yes ''n'' \<and>
   (\<exists>w'. update_env_from_template
           (start_world (Some [(''A'', ''1'')]) (Some [(''A'', ''''), (''B'', ''x'')]) Map.empty [''n''])
          = (Inr (), w') \<and>
         env_file w' = Some [(''A'', ''''), (''B'', ''x'')] \<and>
         template_file w' = Some [(''A'', ''1'')] \<and>
         trace w' = trace (start_world (Some [(''A'', ''1'')]) (Some [(''A'', ''''), (''B'', ''x'')]) Map.empty [''n''])
                    @ [Input ApplyPrompt])"
proof -
  let ?w = "start_world (Some [(''A'', ''1'')]) (Some [(''A'', ''''), (''B'', ''x'')]) Map.empty [''n'']"
  have h1: "template_file ?w = Some [(''A'', ''1'')]" by (simp add: start_world_def)
  have h2: "env_file ?w = Some [(''A'', ''''), (''B'', ''x'')]" by (simp add: start_world_def)
  have d1: "changes (dotenv_values [(''A'', ''''), (''B'', ''x'')]) (dotenv_values [(''A'', ''1'')])
     = [(''A'', ''1'')]"
    by (simp add: eval_files)
  have d2: "removed_keys (dotenv_values [(''A'', ''''), (''B'', ''x'')]) (dotenv_values [(''A'', ''1'')])
     = [''B'']"
    by (simp add: eval_files)
  from d1 have h3: "changes (dotenv_values [(''A'', ''''), (''B'', ''x'')]) (dotenv_values [(''A'', ''1'')]) \<noteq> [] \<or>
    removed_keys (dotenv_values [(''A'', ''''), (''B'', ''x'')]) (dotenv_values [(''A'', ''1'')]) \<noteq> []"
    by simp
  have h4: "stdin ?w = ''n'' # []" by (simp add: start_world_def)
  have h5: "\<not> is_yes ''n''" by (simp add: is_yes_def str_lower_def char_lower_def)
  from decline_is_noop [OF h1 h2 h3 h4 h5] h1 h2 d1 d2 h4 h5 show ?thesis by blast
qed

section \<open>No silent overwrite\<close>

text \<open>
  C5. No silent overwrite: a key that the template declares and that the live file binds to
  a non-empty value keeps that value through reconciliation, whatever default the template
  gives it and whatever the operator types (also when the input ends in the middle).
\<close>

theorem no_silent_overwrite:
  assumes "template_file w = Some T" and "env_file w = Some S"
    and "stored T k = Some d" and "stored S k = Some v" and "v \<noteq> ''''"
  shows "\<exists>S'. env_file (snd (update_env_from_template w)) = Some S' \<and> stored S' k = Some v"
proof -
  have "k \<notin> fst ` set (changes (dotenv_values S) (dotenv_values T))"
    using assms(4,5) by (simp add: keys_changes)
  moreover have "k \<notin> set (removed_keys (dotenv_values S) (dotenv_values T))"
    using assms(3) by (auto simp: set_removed_keys)
  ultimately obtain S' where "env_file (snd (merge_env T S w)) = Some S'" "stored S' k = stored S k"
    using merge_env_frame [OF assms(2)] by blast
  with assms show ?thesis
    by (simp add: update_env_from_template_def)
qed

theorem no_silent_overwrite_witness:
  "template_file (start_world (Some [(''A'', ''1''), (''B'', ''2'')]) (Some [(''A'', ''7'')]) Map.empty [''y'', ''9''])
     = Some [(''A'', ''1''), (''B'', ''2'')] \<and>
   env_file (start_world (Some [(''A'', ''1''), (''B'', ''2'')]) (Some [(''A'', ''7'')]) Map.empty [''y'', ''9''])
     = Some [(''A'', ''7'')] \<and>
   stored [(''A'', ''1''), (''B'', ''2'')] ''A'' = Some ''1'' \<and>
   stored [(''A'', ''7'')] ''A'' = Some ''7'' \<and>
   ''7'' \<noteq> '''' \<and>
   env_file (snd (update_env_from_template
      (start_world (Some [(''A'', ''1''), (''B'', ''2'')]) (Some [(''A'', ''7'')]) Map.empty [''y'', ''9''])))
     = Some [(''A'', ''7''), (''B'', ''9'')] \<and>
   stored [(''A'', ''7''), (''B'', ''9'')] ''A'' = Some ''7''"
proof -
  let ?w = "start_world (Some [(''A'', ''1''), (''B'', ''2'')]) (Some [(''A'', ''7'')]) Map.empty [''y'', ''9'']"
  have h1: "template_file ?w = Some [(''A'', ''1''), (''B'', ''2'')]"
    and h2: "env_file ?w = Some [(''A'', ''7'')]"
    by (simp_all add: start_world_def)
  have h3: "stored [(''A'', ''1''), (''B'', ''2'')] ''A'' = Some ''1''"
    and h4: "stored [(''A'', ''7'')] ''A'' = Some ''7''"
    by (simp_all add: eval_files)
  have h5: "''7'' \<noteq> ''''" by simp
  have run: "env_file (snd (update_env_from_template ?w)) = Some [(''A'', ''7''), (''B'', ''9'')]"
    by (simp add: eval_run eval_files)
  from no_silent_overwrite [OF h1 h2 h3 h4 h5] run
  have "stored [(''A'', ''7''), (''B'', ''9'')] ''A'' = Some ''7''" by simp
  with h1 h2 h3 h4 h5 run show ?thesis by simp
qed

section \<open>One write per key\<close>

text \<open>
  C6, as the claim states it, fails: there is no single save. With two additions approved
  and the input ending after the first value prompt, the run fails with the live file
  holding the first addition only, neither its content before the merge (empty) nor the
  merged content; and a completed merge of the same files makes two separate writes.
\<close>

theorem merge_write_by_write_counterexample:
  "fst (update_env_from_template
      (start_world (Some [(''A'', ''1''), (''B'', ''2'')]) (Some []) Map.empty [''y'', ''''])) = Inl EOFError \<and>
   env_file (snd (update_env_from_template
      (start_world (Some [(''A'', ''1''), (''B'', ''2'')]) (Some []) Map.empty [''y'', ''''])))
     = Some [(''A'', ''1'')] \<and>
   trace (snd (update_env_from_template
      (start_world (Some [(''A'', ''1''), (''B'', ''2'')]) (Some []) Map.empty [''y'', '''', ''''])))
     = [Input ApplyPrompt, Input (ValuePrompt ''A'' ''1''), SetKey ''A'' ''1'',
        Input (ValuePrompt ''B'' ''2''), SetKey ''B'' ''2''] \<and>
   env_file (snd (update_env_from_template
      (start_world (Some [(''A'', ''1''), (''B'', ''2'')]) (Some []) Map.empty [''y'', '''', ''''])))
     = Some [(''A'', ''1''), (''B'', ''2'')]"
  by (simp add: eval_run eval_files Let_def)


text \<open>
  C6, amended. When the merge is approved, each accepted addition value is written to the
  live file by its own \<open>set_key\<close>, in template order, and then each removal by its own
  \<open>unset_key\<close>: there is no single save. If every value prompt is answered the run
  returns after all these writes; if the input ends at a value prompt the run fails with
  \<open>EOFError\<close> after the writes made so far, which stay. In both cases, when the store
  reads the written values back as they were written, the live file holds them for their
  keys: after a completed merge the removed keys are gone, each addition key is at its
  accepted value and every other key is as before; after a failed one the keys written
  so far are at their accepted values and every other key is as before.
\<close>

theorem approved_merge_writes:
  assumes "template_file w = Some T" and "env_file w = Some S"
    and "stdin w = a # answers @ rest" and "is_yes a"
    and "changes (dotenv_values S) (dotenv_values T) \<noteq> [] \<or>
         removed_keys (dotenv_values S) (dotenv_values T) \<noteq> []"
  shows "(length answers = length (changes (dotenv_values S) (dotenv_values T)) \<longrightarrow>
          (\<exists>w' S'. update_env_from_template w = (Inr (), w') \<and> env_file w' = Some S' \<and>
             filter is_write (trace w') =
               filter is_write (trace w)
               @ map (\<lambda>(k, v). SetKey k v)
                   (written_values (changes (dotenv_values S) (dotenv_values T)) answers)
               @ map UnsetKey (removed_keys (dotenv_values S) (dotenv_values T)) \<and>
             ((\<forall>(k, v)\<in>set (written_values (changes (dotenv_values S) (dotenv_values T)) answers).
                  reads_as w v = Some v) \<longrightarrow>
              (\<forall>k. stored S' k =
                (if k \<in> set (removed_keys (dotenv_values S) (dotenv_values T)) then None
                 else case map_of (written_values (changes (dotenv_values S) (dotenv_values T)) answers) k of
                        None \<Rightarrow> stored S k
                      | Some v \<Rightarrow> Some v)))))
       \<and> (length answers < length (changes (dotenv_values S) (dotenv_values T)) \<and> rest = [] \<longrightarrow>
          (\<exists>w' S'. update_env_from_template w = (Inl EOFError, w') \<and> env_file w' = Some S' \<and>
             filter is_write (trace w') =
               filter is_write (trace w)
               @ map (\<lambda>(k, v). SetKey k v)
                   (written_values (changes (dotenv_values S) (dotenv_values T)) answers) \<and>
             ((\<forall>(k, v)\<in>set (written_values (changes (dotenv_values S) (dotenv_values T)) answers).
                  reads_as w v = Some v) \<longrightarrow>
              (\<forall>k. stored S' k =
                (case map_of (written_values (changes (dotenv_values S) (dotenv_values T)) answers) k of
                   None \<Rightarrow> stored S k
                 | Some v \<Rightarrow> Some v)))))"
proof (intro conjI impI)
  let ?chg = "changes (dotenv_values S) (dotenv_values T)"
  let ?removed = "removed_keys (dotenv_values S) (dotenv_values T)"
  let ?vals = "written_values ?chg answers"
  let ?M = "unset_all (write_all (reads_as w) S ?vals) ?removed"
  assume len: "length answers = length ?chg"
  note run = update_approved [OF assms(1) assms(2) assms(5) assms(3) assms(4) len]
  have content: "\<forall>k. stored ?M k =
      (if k \<in> set ?removed then None
       else case map_of ?vals k of None \<Rightarrow> stored S k | Some v \<Rightarrow> Some v)"
    if "\<forall>(k, v)\<in>set ?vals. reads_as w v = Some v"
    using stored_merged_back [OF len that] by blast
  show "\<exists>w' S'. update_env_from_template w = (Inr (), w') \<and> env_file w' = Some S' \<and>
             filter is_write (trace w') =
               filter is_write (trace w) @ map (\<lambda>(k, v). SetKey k v) ?vals @ map UnsetKey ?removed \<and>
             ((\<forall>(k, v)\<in>set ?vals. reads_as w v = Some v) \<longrightarrow>
              (\<forall>k. stored S' k =
                (if k \<in> set ?removed then None
                 else case map_of ?vals k of None \<Rightarrow> stored S k | Some v \<Rightarrow> Some v)))"
    using run content
    by (simp add: writes_of_change_events writes_of_removals)
next
  let ?chg = "changes (dotenv_values S) (dotenv_values T)"
  let ?removed = "removed_keys (dotenv_values S) (dotenv_values T)"
  let ?vals = "written_values ?chg answers"
  assume short: "length answers < length ?chg \<and> rest = []"
  let ?w0 = "load_dotenv T w"
  let ?w1 = "?w0\<lparr>stdin := answers, trace := trace w @ [Input ApplyPrompt]\<rparr>"
  have ask: "input ApplyPrompt ?w0 = (Inr a, ?w1)"
    using assms(3) short by (simp add: input_def load_dotenv_fields)
  have "stdin ?w1 = answers" by simp
  from apply_changes_exhausted [OF conjunct1 [OF short] this] obtain w' where w':
    "apply_changes ?chg ?w1 = (Inl EOFError, w')"
    "env_file w' = map_option (\<lambda>f. write_all (reads_as w) f ?vals) (env_file ?w1)"
    "filter is_write (trace w') = filter is_write (trace ?w1) @ map (\<lambda>(k, v). SetKey k v) ?vals"
    by (auto simp: load_dotenv_def)
  have run: "update_env_from_template w = (Inl EOFError, w')"
    using assms(1,2,4,5) ask w'(1)
    by (auto simp: update_env_from_template_def merge_env_def Let_def)
  have persisted: "env_file w' = Some (write_all (reads_as w) S ?vals)"
    using w'(2) assms(2) by (simp add: load_dotenv_fields)
  have writes: "filter is_write (trace w') =
      filter is_write (trace w) @ map (\<lambda>(k, v). SetKey k v) ?vals"
    using w'(3) by simp
  have d: "distinct (map fst ?vals)"
    by (simp add: keys_written_values_take distinct_changes distinct_take)
  have content: "\<forall>k. stored (write_all (reads_as w) S ?vals) k =
      (case map_of ?vals k of None \<Rightarrow> stored S k | Some v \<Rightarrow> Some v)"
    if "\<forall>(k, v)\<in>set ?vals. reads_as w v = Some v"
    using stored_written_back [OF d that] by blast
  from run persisted writes content
  show "\<exists>w' S'. update_env_from_template w = (Inl EOFError, w') \<and> env_file w' = Some S' \<and>
             filter is_write (trace w') =
               filter is_write (trace w) @ map (\<lambda>(k, v). SetKey k v) ?vals \<and>
             ((\<forall>(k, v)\<in>set ?vals. reads_as w v = Some v) \<longrightarrow>
              (\<forall>k. stored S' k = (case map_of ?vals k of None \<Rightarrow> stored S k | Some v \<Rightarrow> Some v)))"
    by simp
qed

theorem approved_merge_writes_witness:
  "template_file (start_world (Some [(''A'', ''1''), (''B'', ''2'')]) (Some [(''C'', ''x'')]) Map.empty [''y'', ''z'', ''''])
     = Some [(''A'', ''1''), (''B'', ''2'')] \<and>
   env_file (start_world (Some [(''A'', ''1''), (''B'', ''2'')]) (Some [(''C'', ''x'')]) Map.empty [''y'', ''z'', ''''])
     = Some [(''C'', ''x'')] \<and>
   stdin (start_world (Some [(''A'', ''1''), (''B'', ''2'')]) (Some [(''C'', ''x'')]) Map.empty [''y'', ''z'', ''''])
     = ''y'' # [''z'', ''''] @ [] \<and>
   is_yes ''y'' \<and>
   changes (dotenv_values [(''C'', ''x'')]) (dotenv_values [(''A'', ''1''), (''B'', ''2'')])
     = [(''A'', ''1''), (''B'', ''2'')] \<and>
   removed_keys (dotenv_values [(''C'', ''x'')]) (dotenv_values [(''A'', ''1''), (''B'', ''2'')])
     = [''C''] \<and>
   written_values [(''A'', ''1''), (''B'', ''2'')] [''z'', ''''] = [(''A'', ''z''), (''B'', ''2'')] \<and>
   reads_as (start_world (Some [(''A'', ''1''), (''B'', ''2'')]) (Some [(''C'', ''x'')]) Map.empty [''y'', ''z'', ''''])
     ''z'' = Some ''z'' \<and>
   reads_as (start_world (Some [(''A'', ''1''), (''B'', ''2'')]) (Some [(''C'', ''x'')]) Map.empty [''y'', ''z'', ''''])
     ''2'' = Some ''2'' \<and>
   (\<exists>w' S'. update_env_from_template
        (start_world (Some [(''A'', ''1''), (''B'', ''2'')]) (Some [(''C'', ''x'')]) Map.empty [''y'', ''z'', ''''])
        = (Inr (), w') \<and> env_file w' = Some S' \<and>
      filter is_write (trace w') = [SetKey ''A'' ''z'', SetKey ''B'' ''2'', UnsetKey ''C''] \<and>
      stored S' ''A'' = Some ''z'' \<and> stored S' ''B'' = Some ''2'' \<and> stored S' ''C'' = None)"
proof -
  let ?T = "[(''A'', ''1''), (''B'', ''2'')]"
  let ?S = "[(''C'', ''x'')]"
  let ?w = "start_world (Some ?T) (Some ?S) Map.empty [''y'', ''z'', '''']"
  have h1: "template_file ?w = Some ?T" and h2: "env_file ?w = Some ?S"
    and h3: "stdin ?w = ''y'' # [''z'', ''''] @ []"
    and tr: "trace ?w = []"
    and rd: "reads_as ?w ''z'' = Some ''z''" "reads_as ?w ''2'' = Some ''2''"
    by (simp_all add: start_world_def)
  have h4: "is_yes ''y''" by (simp add: is_yes_def str_lower_def char_lower_def)
  have chg: "changes (dotenv_values ?S) (dotenv_values ?T) = ?T"
    and removed: "removed_keys (dotenv_values ?S) (dotenv_values ?T) = [''C'']"
    by (simp_all add: eval_files)
  from chg have h5: "changes (dotenv_values ?S) (dotenv_values ?T) \<noteq> [] \<or>
      removed_keys (dotenv_values ?S) (dotenv_values ?T) \<noteq> []"
    by simp
  have vals: "written_values ?T [''z'', ''''] = [(''A'', ''z''), (''B'', ''2'')]"
    by (simp add: accepted_def str_strip_def isspace_def)
  from approved_merge_writes [OF h1 h2 h3 h4 h5]
  obtain w' S' where "update_env_from_template ?w = (Inr (), w')" "env_file w' = Some S'"
    "filter is_write (trace w') = [SetKey ''A'' ''z'', SetKey ''B'' ''2'', UnsetKey ''C'']"
    "\<forall>k. stored S' k = (if k \<in> set [''C''] then None
        else case map_of [(''A'', ''z''), (''B'', ''2'')] k of None \<Rightarrow> stored ?S k | Some v \<Rightarrow> Some v)"
    unfolding chg removed vals tr using rd by auto
  moreover from this(4) have "stored S' ''A'' = Some ''z''" "stored S' ''B'' = Some ''2''"
    "stored S' ''C'' = None"
    by simp_all
  ultimately show ?thesis
    using h1 h2 h3 h4 chg removed vals rd by blast
qed

section \<open>Integer fields\<close>

text \<open>
  C7, as the claim states it, fails: the stored fast token limit is \<open>abc\<close>, reconciliation
  finds no drift and returns, and construction raises \<open>ValueError\<close> instead of taking the
  default.
\<close>

theorem unparsable_limit_counterexample:
  "fst (update_env_from_template
         (start_world (Some [(''FAST_TOKEN_LIMIT'', ''4000'')]) (Some [(''FAST_TOKEN_LIMIT'', ''abc'')])
            [''FAST_TOKEN_LIMIT'' \<mapsto> ''abc''] [])) = Inr () \<and>
   py_int 4300 ''abc'' = None \<and>
   fst (Config_init
         (start_world (Some [(''FAST_TOKEN_LIMIT'', ''4000'')]) (Some [(''FAST_TOKEN_LIMIT'', ''abc'')])
            [''FAST_TOKEN_LIMIT'' \<mapsto> ''abc''] [])) = Inl ValueError"
  by (simp add: eval_init eval_run eval_files py_int_def int_strip_def int_isspace_def isdigit_def)

text \<open>
  C7, amended. After reconciliation has returned, construction raises \<open>ValueError\<close> when
  the environment holds a fast or smart token limit that \<open>int\<close> does not parse (under the
  digit limit of the interpreter); otherwise the instance is built, and each limit is the
  parsed integer, or its default (4000 and 8000) when the variable is absent.
\<close>

theorem token_limits_parsed:
  assumes "update_env_from_template w = (Inr (), w')"
  shows "((\<exists>s. environ w' ''FAST_TOKEN_LIMIT'' = Some s \<and> py_int (int_max_str_digits w') s = None) \<or>
          (\<exists>s. environ w' ''SMART_TOKEN_LIMIT'' = Some s \<and> py_int (int_max_str_digits w') s = None)
          \<longrightarrow> fst (Config_init w) = Inl ValueError)
       \<and> (\<not> ((\<exists>s. environ w' ''FAST_TOKEN_LIMIT'' = Some s \<and> py_int (int_max_str_digits w') s = None) \<or>
               (\<exists>s. environ w' ''SMART_TOKEN_LIMIT'' = Some s \<and> py_int (int_max_str_digits w') s = None))
          \<longrightarrow> (\<exists>c. fst (Config_init w) = Inr c \<and>
                 (case environ w' ''FAST_TOKEN_LIMIT'' of
                    None \<Rightarrow> fast_token_limit c = 4000
                  | Some s \<Rightarrow> py_int (int_max_str_digits w') s = Some (fast_token_limit c)) \<and>
                 (case environ w' ''SMART_TOKEN_LIMIT'' of
                    None \<Rightarrow> smart_token_limit c = 8000
                  | Some s \<Rightarrow> py_int (int_max_str_digits w') s = Some (smart_token_limit c))))"
proof -
  have init: "Config_init w = init_fields w'"
    using assms by (rule Config_init_after)
  show ?thesis
    unfolding init
    by (auto simp: init_fields_def getenv_int_def Let_def split: option.splits sum.splits)
qed

theorem token_limits_parsed_witness:
  "update_env_from_template (start_world None None [''FAST_TOKEN_LIMIT'' \<mapsto> '' 1_000 ''] [])
     = (Inr (), start_world None None [''FAST_TOKEN_LIMIT'' \<mapsto> '' 1_000 ''] []) \<and>
   environ (start_world None None [''FAST_TOKEN_LIMIT'' \<mapsto> '' 1_000 ''] []) ''FAST_TOKEN_LIMIT''
     = Some '' 1_000 '' \<and>
   py_int 4300 '' 1_000 '' = Some 1000 \<and>
   environ (start_world None None [''FAST_TOKEN_LIMIT'' \<mapsto> '' 1_000 ''] []) ''SMART_TOKEN_LIMIT''
     = None \<and>
   map_sum id fast_token_limit
     (fst (Config_init (start_world None None [''FAST_TOKEN_LIMIT'' \<mapsto> '' 1_000 ''] []))) = Inr 1000 \<and>
   map_sum id smart_token_limit
     (fst (Config_init (start_world None None [''FAST_TOKEN_LIMIT'' \<mapsto> '' 1_000 ''] []))) = Inr 8000"
proof -
  let ?w = "start_world None None [''FAST_TOKEN_LIMIT'' \<mapsto> '' 1_000 ''] []"
  have run: "update_env_from_template ?w = (Inr (), ?w)"
    by (simp add: update_env_from_template_def start_world_def)
  have f: "environ ?w ''FAST_TOKEN_LIMIT'' = Some '' 1_000 ''"
    and s: "environ ?w ''SMART_TOKEN_LIMIT'' = None"
    and m: "int_max_str_digits ?w = 4300"
    by (simp_all add: start_world_def)
  have p: "py_int 4300 '' 1_000 '' = Some 1000"
    by (simp add: py_int_def int_strip_def int_isspace_def isdigit_def digit_val_def)
  from token_limits_parsed [OF run] f s p m
  have "\<exists>c. fst (Config_init ?w) = Inr c \<and> fast_token_limit c = 1000 \<and> smart_token_limit c = 8000"
    by auto
  then have "map_sum id fast_token_limit (fst (Config_init ?w)) = Inr 1000"
    and "map_sum id smart_token_limit (fst (Config_init ?w)) = Inr 8000"
    by auto
  with run f s p show ?thesis by simp
qed

section \<open>Boolean fields\<close>

text \<open>
  C8, as the claim states it, fails: with \<open>WIPE_REDIS_ON_START\<close> absent the field
  \<open>wipe_redis_on_start\<close> is true, not false.
\<close>

theorem absent_flag_counterexample:
  "environ (start_world None None Map.empty []) ''WIPE_REDIS_ON_START'' = None \<and>
   map_sum id wipe_redis_on_start (fst (Config_init (start_world None None Map.empty [])))
     = Inr True"
  by (simp add: eval_init eval_run)

text \<open>
  C8, amended. In a constructed instance \<open>use_azure\<close> is true exactly when the variable
  \<open>USE_AZURE\<close> holds the string \<open>True\<close>, and false otherwise, also when it is absent;
  \<open>wipe_redis_on_start\<close> is true exactly when \<open>WIPE_REDIS_ON_START\<close> holds the string
  \<open>True\<close> or is absent, and false for every other value.
\<close>

theorem boolean_fields:
  assumes "update_env_from_template w = (Inr (), w')" and "fst (Config_init w) = Inr c"
  shows "use_azure c = (environ w' ''USE_AZURE'' = Some ''True'') \<and>
         wipe_redis_on_start c =
           (environ w' ''WIPE_REDIS_ON_START'' = Some ''True'' \<or>
            environ w' ''WIPE_REDIS_ON_START'' = None)"
proof -
  have "fst (init_fields w') = Inr c"
    using assms by (simp add: Config_init_after)
  from init_fields_Inr(3,4) [OF this] show ?thesis
    by (auto simp: getenv_default_def split: option.splits)
qed

theorem boolean_fields_witness:
  "update_env_from_template (start_world None None [''USE_AZURE'' \<mapsto> ''true''] [])
     = (Inr (), start_world None None [''USE_AZURE'' \<mapsto> ''true''] []) \<and>
   map_sum id use_azure (fst (Config_init (start_world None None [''USE_AZURE'' \<mapsto> ''true''] [])))
     = Inr False \<and>
   map_sum id wipe_redis_on_start
     (fst (Config_init (start_world None None [''USE_AZURE'' \<mapsto> ''true''] []))) = Inr True"
proof -
  let ?w = "start_world None None [''USE_AZURE'' \<mapsto> ''true''] []"
  have run: "update_env_from_template ?w = (Inr (), ?w)"
    by (simp add: update_env_from_template_def start_world_def)
  obtain c where c: "fst (Config_init ?w) = Inr c"
    by (simp add: eval_init eval_run)
  have e: "environ ?w ''USE_AZURE'' = Some ''true''" "environ ?w ''WIPE_REDIS_ON_START'' = None"
    by (simp_all add: start_world_def)
  from boolean_fields [OF run c] e have "use_azure c = False" "wipe_redis_on_start c = True"
    by simp_all
  with c run show ?thesis by simp
qed

text \<open>
  The third flag, \<open>use_mac_os_tts\<close>, is not compared with anything (line 118): it holds
  the string that the environment gives, so the value \<open>False\<close> leaves a non-empty, truthy
  string in it.
\<close>

lemma use_mac_os_tts_raw:
  "map_sum id use_mac_os_tts
     (fst (Config_init (start_world None None [''USE_MAC_OS_TTS'' \<mapsto> ''False''] [])))
     = Inr (Some ''False'')"
  by (simp add: eval_init eval_run)

section \<open>The Azure attributes\<close>

text \<open>
  C9, as the claim states it, fails: with \<open>use_azure\<close> false the instance has no
  attribute \<open>openai_api_base\<close>, and reading it raises \<open>AttributeError\<close> instead of giving
  an empty default.
\<close>

theorem azure_attribute_counterexample:
  "map_sum id use_azure (fst (Config_init (start_world None None Map.empty []))) = Inr False \<and>
   map_sum id read_openai_api_base (fst (Config_init (start_world None None Map.empty [])))
     = Inr (Inl AttributeError)"
  by (simp add: eval_init eval_run read_openai_api_base_def)

text \<open>
  C9, amended. When \<open>use_azure\<close> is false in a constructed instance, the three Azure
  attributes (API base, API version, deployment id) are not assigned: reading any of them
  raises \<open>AttributeError\<close>; the \<open>openai\<close> module only gets its API key; and the three
  environment variables are not read: whatever they hold, the same instance is built.
\<close>

theorem azure_fields_unassigned:
  assumes "update_env_from_template w = (Inr (), w')" and "fst (Config_init w) = Inr c"
    and "\<not> use_azure c"
  shows "read_openai_api_base c = Inl AttributeError \<and>
         read_openai_api_version c = Inl AttributeError \<and>
         read_openai_deployment_id c = Inl AttributeError \<and>
         openai (snd (Config_init w)) = (openai w')\<lparr>api_key := environ w' ''OPENAI_API_KEY''\<rparr> \<and>
         (\<forall>b v d. fst (init_fields
             (w'\<lparr>environ := (environ w')(''OPENAI_AZURE_API_BASE'' := b,
                                         ''OPENAI_AZURE_API_VERSION'' := v,
                                         ''OPENAI_AZURE_DEPLOYMENT_ID'' := d)\<rparr>)) = Inr c)"
proof -
  have init: "Config_init w = init_fields w'"
    using assms(1) by (rule Config_init_after)
  then have c: "fst (init_fields w') = Inr c"
    using assms(2) by simp
  from init_fields_Inr(3) [OF c] assms(3) have off: "environ w' ''USE_AZURE'' \<noteq> Some ''True''"
    by simp
  from init_fields_Inr(6,7,8) [OF c] assms(3)
  have attrs: "read_openai_api_base c = Inl AttributeError"
    "read_openai_api_version c = Inl AttributeError"
    "read_openai_deployment_id c = Inl AttributeError"
    by (simp_all add: read_openai_api_base_def read_openai_api_version_def
        read_openai_deployment_id_def getattr_def)
  have module: "openai (snd (Config_init w)) = (openai w')\<lparr>api_key := environ w' ''OPENAI_API_KEY''\<rparr>"
    unfolding init using c off
    by (auto simp: init_fields_def Let_def getenv_def split: sum.splits)
  have same: "fst (init_fields
             (w'\<lparr>environ := (environ w')(''OPENAI_AZURE_API_BASE'' := b,
                                         ''OPENAI_AZURE_API_VERSION'' := v,
                                         ''OPENAI_AZURE_DEPLOYMENT_ID'' := d)\<rparr>)) = Inr c" for b v d
    using c off
    by (auto simp: init_fields_def Let_def getenv_def getenv_int_def getenv_default_def
        split: sum.splits cong: option.case_cong)
  from attrs module same show ?thesis by blast
qed

theorem azure_fields_unassigned_witness:
  "update_env_from_template
     (start_world None None [''OPENAI_AZURE_API_BASE'' \<mapsto> ''https://example''] [])
     = (Inr (), start_world None None [''OPENAI_AZURE_API_BASE'' \<mapsto> ''https://example''] []) \<and>
   map_sum id use_azure
     (fst (Config_init (start_world None None [''OPENAI_AZURE_API_BASE'' \<mapsto> ''https://example''] [])))
     = Inr False \<and>
   map_sum id read_openai_api_base
     (fst (Config_init (start_world None None [''OPENAI_AZURE_API_BASE'' \<mapsto> ''https://example''] [])))
     = Inr (Inl AttributeError)"
proof -
  let ?w = "start_world None None [''OPENAI_AZURE_API_BASE'' \<mapsto> ''https://example''] []"
  have run: "update_env_from_template ?w = (Inr (), ?w)"
    by (simp add: update_env_from_template_def start_world_def)
  obtain c where c: "fst (Config_init ?w) = Inr c" and off: "\<not> use_azure c"
    by (simp add: eval_init eval_run)
  from azure_fields_unassigned [OF run c off]
  have "read_openai_api_base c = Inl AttributeError" by blast
  with c off run show ?thesis by simp
qed

section \<open>Typed value or default\<close>



end
